theory Spec2Isabelle
  imports Complex_Main
begin

section \<open>Values, errors and the rule syntax (core/sintaxis\_reglas.py)\<close>

text \<open>
  Python values that facts, conditions, actions and bindings carry (\<open>Any\<close> in the source).
  A finite float is represented by the real number it denotes (NaN and the infinities are
  not represented); dictionaries are not represented.
\<close>

datatype pyval =
    VNone
  | VBool bool
  | VInt int
  | VFloat real
  | VStr string
  | VList "pyval list"
  | VTuple "pyval list"

text \<open>The exceptions the modelled code can raise.\<close>

datatype py_error = KeyError | ValueError

text \<open>
  Python's \<open>==\<close> on these values: \<open>bool\<close>, \<open>int\<close> and \<open>float\<close> compare by numeric
  value (\<open>True == 1\<close>), strings and \<open>None\<close> structurally, two lists or two tuples
  element by element; a list never equals a tuple.
\<close>

fun numero :: "pyval \<Rightarrow> real option" where
  "numero (VBool b) = Some (if b then 1 else 0)"
| "numero (VInt i) = Some (real_of_int i)"
| "numero (VFloat x) = Some x"
| "numero _ = None"

fun py_eq :: "pyval \<Rightarrow> pyval \<Rightarrow> bool"
  and py_eq_lista :: "pyval list \<Rightarrow> pyval list \<Rightarrow> bool" where
  "py_eq (VList xs) (VList ys) = py_eq_lista xs ys"
| "py_eq (VTuple xs) (VTuple ys) = py_eq_lista xs ys"
| "py_eq (VStr s) (VStr t) = (s = t)"
| "py_eq VNone VNone = True"
| "py_eq a b = (case numero a of None \<Rightarrow> False
                | Some x \<Rightarrow> (case numero b of None \<Rightarrow> False | Some y \<Rightarrow> x = y))"
| "py_eq_lista [] [] = True"
| "py_eq_lista (x # xs) (y # ys) = (py_eq x y \<and> py_eq_lista xs ys)"
| "py_eq_lista _ _ = False"

text \<open>\<open>x in xs\<close> for a list \<open>xs\<close>.\<close>

definition py_in :: "pyval \<Rightarrow> pyval list \<Rightarrow> bool" where
  "py_in x xs = list_ex (py_eq x) xs"

text \<open>
  \<open>max(iterable, key=...)\<close>: \<open>ValueError\<close> on an empty iterable; otherwise a left-to-right
  scan that replaces the current maximum only by a strictly greater key, so the first of
  several maximal items is returned.
\<close>

fun max_desde :: "('a \<Rightarrow> 'k::linorder) \<Rightarrow> 'a \<Rightarrow> 'a list \<Rightarrow> 'a" where
  "max_desde key m [] = m"
| "max_desde key m (x # xs) = (if key m < key x then max_desde key x xs else max_desde key m xs)"

definition py_max :: "('a \<Rightarrow> 'k::linorder) \<Rightarrow> 'a list \<Rightarrow> py_error + 'a" where
  "py_max key xs = (case xs of [] \<Rightarrow> Inl ValueError | x # rest \<Rightarrow> Inr (max_desde key x rest))"

datatype TipoHecho = INICIAL | DERIVADO | CONCLUSION

datatype OperadorCondicion =
    IGUAL | DIFERENTE | MENOR | MENOR_IGUAL | MAYOR | MAYOR_IGUAL
  | CONTIENE | EN | NO_EN | EXISTE | NO_EXISTE | COINCIDE_PATRON

datatype TipoAccion =
    ASSERT | RETRACT | MODIFY | CONCLUDE | CALL_FUNCTION | SET_VARIABLE | INCREMENT | RECOMMEND

record CondicionRegla =
  c_predicado :: string
  c_operador :: OperadorCondicion
  c_valor :: pyval
  c_variable :: "string option"
  c_peso :: real
  c_explicacion :: string

record AccionRegla =
  a_tipo :: TipoAccion
  a_predicado :: string
  a_valor :: pyval
  a_parametros :: "(string \<times> pyval) list"
  a_confianza :: real
  a_explicacion :: string

text \<open>
  A rule after \<open>__post_init__\<close>: \<open>r_especificidad\<close> and \<open>r_complejidad\<close> are integers
  (\<open>post_init\<close> below fills in the defaults).
\<close>

record ReglaProduccionAcademica =
  r_id :: string
  r_nombre :: string
  r_condiciones :: "CondicionRegla list"
  r_acciones :: "AccionRegla list"
  r_prioridad :: real
  r_especificidad :: int
  r_complejidad :: int
  r_descripcion :: string
  r_dominio :: string
  r_fuente_conocimiento :: string

definition post_init ::
  "string \<Rightarrow> string \<Rightarrow> CondicionRegla list \<Rightarrow> AccionRegla list \<Rightarrow> real \<Rightarrow> int option \<Rightarrow> int option
    \<Rightarrow> string \<Rightarrow> string \<Rightarrow> string \<Rightarrow> ReglaProduccionAcademica" where
  "post_init ident nombre condiciones acciones prioridad esp cpl descripcion dominio fuente =
     \<lparr> r_id = ident, r_nombre = nombre, r_condiciones = condiciones, r_acciones = acciones,
       r_prioridad = prioridad,
       r_especificidad = (case esp of None \<Rightarrow> int (length condiciones) | Some e \<Rightarrow> e),
       r_complejidad = (case cpl of None \<Rightarrow> int (length condiciones) + int (length acciones)
                        | Some c \<Rightarrow> c),
       r_descripcion = descripcion, r_dominio = dominio, r_fuente_conocimiento = fuente \<rparr>"

section \<open>Working memory (core/memoria\_trabajo.py)\<close>

text \<open>
  \<open>h_timestamp\<close> is the reading of \<open>datetime.now()\<close> taken when the fact is built, as a
  count of microseconds.
\<close>

record Hecho =
  h_id :: string
  h_predicado :: string
  h_valor :: pyval
  h_tipo :: TipoHecho
  h_origen :: "string option"
  h_timestamp :: int
  h_justificacion :: string
  h_confianza :: real

text \<open>
  \<open>_hechos\<close> is a dict, kept as an association list in insertion order; the two indices map
  a key to a Python set of ids, kept as the list of its elements in insertion order.
\<close>

record MemoriaTrabajo =
  mt_hechos :: "(string \<times> Hecho) list"
  mt_indice_por_predicado :: "string \<rightharpoonup> string list"
  mt_indice_por_tipo :: "TipoHecho \<rightharpoonup> string list"
  mt_contador_hechos :: nat

text \<open>\<open>d[k] = v\<close> on a dict: overwrite in place when the key is present, append otherwise.\<close>

fun dict_set :: "('k \<times> 'v) list \<Rightarrow> 'k \<Rightarrow> 'v \<Rightarrow> ('k \<times> 'v) list" where
  "dict_set [] k v = [(k, v)]"
| "dict_set ((k', v') # d) k v = (if k' = k then (k, v) # d else (k', v') # dict_set d k v)"

text \<open>\<open>d.get(k, default)\<close>; \<open>d.setdefault(k, default)\<close> returns the same value.\<close>

definition dict_get :: "('k \<rightharpoonup> 'v) \<Rightarrow> 'k \<Rightarrow> 'v \<Rightarrow> 'v" where
  "dict_get d k dflt = (case d k of None \<Rightarrow> dflt | Some v \<Rightarrow> v)"

text \<open>\<open>s.add(x)\<close> on a set.\<close>

definition set_add :: "'a list \<Rightarrow> 'a \<Rightarrow> 'a list" where
  "set_add s x = (if x \<in> set s then s else s @ [x])"

definition MemoriaTrabajo_init :: MemoriaTrabajo where
  "MemoriaTrabajo_init =
     \<lparr> mt_hechos = [], mt_indice_por_predicado = Map.empty,
       mt_indice_por_tipo = (\<lambda>t. Some []), mt_contador_hechos = 0 \<rparr>"

text \<open>The format \<open>f"F{n:04d}"\<close>: the decimal digits of \<open>n\<close>, padded with zeros to width 4.\<close>

definition digito :: "nat \<Rightarrow> char" where
  "digito d = ''0123456789'' ! d"

fun digitos :: "nat \<Rightarrow> string" where
  "digitos n = (if n < 10 then [digito n] else digitos (n div 10) @ [digito (n mod 10)])"

declare digitos.simps [simp del]

definition generar_id :: "nat \<Rightarrow> string" where
  "generar_id n = CHR ''F'' # replicate (4 - length (digitos n)) CHR ''0'' @ digitos n"

text \<open>
  \<open>assert_hecho\<close>; \<open>ahora\<close> is the reading of \<open>datetime.now()\<close> that the \<open>Hecho\<close>
  constructor takes. The result is the new id and the updated memory.
\<close>

definition assert_hecho ::
  "string \<Rightarrow> pyval \<Rightarrow> TipoHecho \<Rightarrow> string option \<Rightarrow> string \<Rightarrow> real \<Rightarrow> int \<Rightarrow> MemoriaTrabajo
    \<Rightarrow> py_error + (string \<times> MemoriaTrabajo)" where
  "assert_hecho predicado valor tipo origen justificacion confianza ahora m =
     (let contador = Suc (mt_contador_hechos m);
          hecho_id = generar_id contador;
          hecho = \<lparr> h_id = hecho_id, h_predicado = predicado, h_valor = valor, h_tipo = tipo,
                    h_origen = origen, h_timestamp = ahora, h_justificacion = justificacion,
                    h_confianza = confianza \<rparr>;
          hs = dict_set (mt_hechos m) hecho_id hecho;
          ip = (mt_indice_por_predicado m)
                 (predicado \<mapsto> set_add (dict_get (mt_indice_por_predicado m) predicado []) hecho_id)
      in case mt_indice_por_tipo m tipo of
           None \<Rightarrow> Inl KeyError
         | Some s \<Rightarrow>
             Inr (hecho_id,
                  \<lparr> mt_hechos = hs, mt_indice_por_predicado = ip,
                    mt_indice_por_tipo = (mt_indice_por_tipo m)(tipo \<mapsto> set_add s hecho_id),
                    mt_contador_hechos = contador \<rparr>))"

text \<open>The generator \<open>(self._hechos[hid] for hid in hechos_ids)\<close>, consumed to the end.\<close>

fun buscar_hechos :: "(string \<times> Hecho) list \<Rightarrow> string list \<Rightarrow> py_error + Hecho list" where
  "buscar_hechos hs [] = Inr []"
| "buscar_hechos hs (k # ks) =
     (case map_of hs k of
        None \<Rightarrow> Inl KeyError
      | Some h \<Rightarrow> (case buscar_hechos hs ks of Inl e \<Rightarrow> Inl e | Inr r \<Rightarrow> Inr (h # r)))"

text \<open>
  \<open>obtener_hecho\<close>. The order in which a Python set of strings is iterated depends on the
  interpreter's string hashing; \<open>orden\<close> is that order, as a function from the set's
  elements in insertion order to the sequence the iteration yields.
\<close>

definition obtener_hecho ::
  "(string list \<Rightarrow> string list) \<Rightarrow> MemoriaTrabajo \<Rightarrow> string \<Rightarrow> py_error + Hecho option" where
  "obtener_hecho orden m predicado =
     (let hechos_ids = dict_get (mt_indice_por_predicado m) predicado []
      in if hechos_ids = [] then Inr None
         else (case buscar_hechos (mt_hechos m) (orden hechos_ids) of
                 Inl e \<Rightarrow> Inl e
               | Inr hs \<Rightarrow> (case py_max h_timestamp hs of Inl e \<Rightarrow> Inl e | Inr h \<Rightarrow> Inr (Some h))))"

definition limpiar_memoria :: "MemoriaTrabajo \<Rightarrow> MemoriaTrabajo" where
  "limpiar_memoria m =
     \<lparr> mt_hechos = [], mt_indice_por_predicado = Map.empty,
       mt_indice_por_tipo = (\<lambda>t. Some []), mt_contador_hechos = 0 \<rparr>"

section \<open>Evaluating and executing rules (knowledge/parser\_reglas.py)\<close>

text \<open>
  \<open>_evaluar_condicion\<close>: the result is the truth value returned and the bindings dict after
  the call (the source updates the caller's dict in place).
\<close>

definition evaluar_condicion ::
  "(string list \<Rightarrow> string list) \<Rightarrow> MemoriaTrabajo \<Rightarrow> CondicionRegla \<Rightarrow> (string \<rightharpoonup> pyval)
    \<Rightarrow> py_error + (bool \<times> (string \<rightharpoonup> pyval))" where
  "evaluar_condicion orden m condicion bnd =
     (case obtener_hecho orden m (c_predicado condicion) of
        Inl e \<Rightarrow> Inl e
      | Inr hecho \<Rightarrow>
          if c_operador condicion = NO_EXISTE then Inr (hecho = None, bnd)
          else if c_operador condicion = EXISTE then Inr (hecho \<noteq> None, bnd)
          else (case hecho of
                  None \<Rightarrow> Inr (False, bnd)
                | Some h \<Rightarrow>
                    (let valor_hecho = h_valor h;
                         valor_condicion = c_valor condicion;
                         resultado =
                           (if c_operador condicion = IGUAL then py_eq valor_hecho valor_condicion
                            else if c_operador condicion = DIFERENTE
                              then \<not> py_eq valor_hecho valor_condicion
                            else if c_operador condicion = EN
                              then (case valor_condicion of
                                      VList xs \<Rightarrow> py_in valor_hecho xs | _ \<Rightarrow> False)
                            else if c_operador condicion = NO_EN
                              then (case valor_condicion of
                                      VList xs \<Rightarrow> \<not> py_in valor_hecho xs | _ \<Rightarrow> False)
                            else False)
                     in Inr (resultado,
                             (case c_variable condicion of
                                None \<Rightarrow> bnd
                              | Some var \<Rightarrow>
                                  if resultado \<and> var \<noteq> [] then bnd(var \<mapsto> valor_hecho)
                                  else bnd)))))"

text \<open>The loop of \<open>evaluar_regla\<close> over the conditions; \<open>None\<close> is the early \<open>return None\<close>.\<close>

fun evaluar_condiciones ::
  "(string list \<Rightarrow> string list) \<Rightarrow> MemoriaTrabajo \<Rightarrow> CondicionRegla list \<Rightarrow> (string \<rightharpoonup> pyval)
    \<Rightarrow> py_error + (string \<rightharpoonup> pyval) option" where
  "evaluar_condiciones orden m [] bnd = Inr (Some bnd)"
| "evaluar_condiciones orden m (condicion # resto) bnd =
     (case evaluar_condicion orden m condicion bnd of
        Inl e \<Rightarrow> Inl e
      | Inr (ok, bnd') \<Rightarrow> if \<not> ok then Inr None else evaluar_condiciones orden m resto bnd')"

text \<open>\<open>evaluar_regla\<close>: \<open>Some b\<close> stands for the dict \<open>{'bindings': b}\<close>.\<close>

definition evaluar_regla ::
  "(string list \<Rightarrow> string list) \<Rightarrow> MemoriaTrabajo \<Rightarrow> ReglaProduccionAcademica
    \<Rightarrow> py_error + (string \<rightharpoonup> pyval) option" where
  "evaluar_regla orden m regla = evaluar_condiciones orden m (r_condiciones regla) Map.empty"

text \<open>
  One pass of the loop of \<open>ejecutar_acciones\<close>. The state is the list \<open>hechos_creados\<close>, the
  memory and the number of clock readings taken so far; \<open>reloj k\<close> is reading number \<open>k\<close>
  of \<open>datetime.now()\<close>.
\<close>

definition ejecutar_accion ::
  "(nat \<Rightarrow> int) \<Rightarrow> ReglaProduccionAcademica \<Rightarrow> (string \<rightharpoonup> pyval) \<Rightarrow> AccionRegla
    \<Rightarrow> string list \<times> MemoriaTrabajo \<times> nat \<Rightarrow> py_error + (string list \<times> MemoriaTrabajo \<times> nat)" where
  "ejecutar_accion reloj regla bnd accion st =
     (case st of (hechos_creados, m, lecturas) \<Rightarrow>
       (let valor_accion =
              (case a_valor accion of
                 VStr s \<Rightarrow>
                   if take 1 s = ''$''
                   then dict_get bnd (drop 1 s) (VStr s)
                   else VStr s
               | v \<Rightarrow> v)
        in if a_tipo accion \<in> set [ASSERT, CONCLUDE, RECOMMEND]
           then (case assert_hecho (a_predicado accion) valor_accion
                        (if a_tipo accion = ASSERT then DERIVADO else CONCLUSION)
                        (Some (r_id regla)) (a_explicacion accion) (a_confianza accion)
                        (reloj lecturas) m of
                   Inl e \<Rightarrow> Inl e
                 | Inr (id_hecho, m') \<Rightarrow> Inr (hechos_creados @ [id_hecho], m', Suc lecturas))
           else Inr (hechos_creados, m, lecturas)))"

fun ejecutar_lista ::
  "(nat \<Rightarrow> int) \<Rightarrow> ReglaProduccionAcademica \<Rightarrow> (string \<rightharpoonup> pyval) \<Rightarrow> AccionRegla list
    \<Rightarrow> string list \<times> MemoriaTrabajo \<times> nat \<Rightarrow> py_error + (string list \<times> MemoriaTrabajo \<times> nat)" where
  "ejecutar_lista reloj regla bnd [] st = Inr st"
| "ejecutar_lista reloj regla bnd (accion # resto) st =
     (case ejecutar_accion reloj regla bnd accion st of
        Inl e \<Rightarrow> Inl e
      | Inr st' \<Rightarrow> ejecutar_lista reloj regla bnd resto st')"

definition ejecutar_acciones ::
  "(nat \<Rightarrow> int) \<Rightarrow> ReglaProduccionAcademica \<Rightarrow> (string \<rightharpoonup> pyval) \<Rightarrow> MemoriaTrabajo \<times> nat
    \<Rightarrow> py_error + (string list \<times> MemoriaTrabajo \<times> nat)" where
  "ejecutar_acciones reloj regla bnd ml =
     ejecutar_lista reloj regla bnd (r_acciones regla) ([], fst ml, snd ml)"

section \<open>The agenda (core/agenda.py)\<close>

datatype EstrategiaConflictResolution = ESPECIFICIDAD | RECENCIA | PRIORIDAD_EXPLICITA

record ReglaInstanciada =
  ri_regla_id :: string
  ri_bindings :: "string \<rightharpoonup> pyval"
  ri_hechos_activadores :: "string list"
  ri_timestamp_activacion :: int
  ri_especificidad :: int
  ri_prioridad_explicita :: real
  ri_ya_ejecutada :: bool

text \<open>
  The activations are objects shared between \<open>_reglas_instanciadas\<close>, the value that
  \<open>seleccionar_proxima_regla\<close> returns and \<open>_historial_ejecucion\<close>: an activation is
  referred to by its position in \<open>_reglas_instanciadas\<close>, which only grows.
\<close>

record Agenda =
  ag_reglas_instanciadas :: "ReglaInstanciada list"
  ag_estrategia :: EstrategiaConflictResolution
  ag_historial_ejecucion :: "nat list"

definition Agenda_init :: "EstrategiaConflictResolution \<Rightarrow> Agenda" where
  "Agenda_init e =
     \<lparr> ag_reglas_instanciadas = [], ag_estrategia = e, ag_historial_ejecucion = [] \<rparr>"

text \<open>\<open>activar_regla\<close>; \<open>ahora\<close> is the clock reading the new activation takes.\<close>

definition activar_regla ::
  "string \<Rightarrow> (string \<rightharpoonup> pyval) \<Rightarrow> string list \<Rightarrow> int \<Rightarrow> real \<Rightarrow> int \<Rightarrow> Agenda \<Rightarrow> Agenda" where
  "activar_regla regla_id bnd activadores esp prioridad ahora ag =
     ag\<lparr> ag_reglas_instanciadas := ag_reglas_instanciadas ag @
            [\<lparr> ri_regla_id = regla_id, ri_bindings = bnd, ri_hechos_activadores = activadores,
               ri_timestamp_activacion = ahora, ri_especificidad = esp,
               ri_prioridad_explicita = prioridad, ri_ya_ejecutada = False \<rparr>] \<rparr>"

definition candidatos :: "Agenda \<Rightarrow> nat list" where
  "candidatos ag =
     filter (\<lambda>i. \<not> ri_ya_ejecutada (ag_reglas_instanciadas ag ! i))
       [0 ..< length (ag_reglas_instanciadas ag)]"

definition seleccionar_proxima_regla :: "Agenda \<Rightarrow> py_error + nat option" where
  "seleccionar_proxima_regla ag =
     (if candidatos ag = [] then Inr None
      else (case (case ag_estrategia ag of
                    ESPECIFICIDAD \<Rightarrow>
                      py_max (\<lambda>i. ri_especificidad (ag_reglas_instanciadas ag ! i))
                        (candidatos ag)
                  | RECENCIA \<Rightarrow>
                      py_max (\<lambda>i. ri_timestamp_activacion (ag_reglas_instanciadas ag ! i))
                        (candidatos ag)
                  | PRIORIDAD_EXPLICITA \<Rightarrow>
                      py_max (\<lambda>i. ri_prioridad_explicita (ag_reglas_instanciadas ag ! i))
                        (candidatos ag)) of
              Inl e \<Rightarrow> Inl e
            | Inr seleccionada \<Rightarrow> Inr (Some seleccionada)))"

definition marcar_como_ejecutada :: "nat \<Rightarrow> Agenda \<Rightarrow> Agenda" where
  "marcar_como_ejecutada i ag =
     ag\<lparr> ag_reglas_instanciadas :=
            (ag_reglas_instanciadas ag)
              [i := (ag_reglas_instanciadas ag ! i)\<lparr> ri_ya_ejecutada := True \<rparr>],
         ag_historial_ejecucion := ag_historial_ejecucion ag @ [i] \<rparr>"

definition esta_vacia :: "Agenda \<Rightarrow> bool" where
  "esta_vacia ag = list_all ri_ya_ejecutada (ag_reglas_instanciadas ag)"

definition limpiar_agenda :: "Agenda \<Rightarrow> Agenda" where
  "limpiar_agenda ag = Agenda_init (ag_estrategia ag)"

section \<open>The inference engine (core/motor\_inferencia.py)\<close>

text \<open>The protocol \<open>BaseConocimiento\<close>: any pair of the two methods.\<close>

record BaseConocimiento =
  obtener_reglas :: "ReglaProduccionAcademica list"
  obtener_regla_por_id :: "string \<Rightarrow> ReglaProduccionAcademica option"

text \<open>
  The knowledge base of knowledge/base\_conocimiento.py over a list of rules: the index is
  the dict comprehension \<open>{r.id: r for r in reglas}\<close>, where a later rule replaces an
  earlier one of the same id.
\<close>

definition BaseConocimientoBotanicoTDF :: "ReglaProduccionAcademica list \<Rightarrow> BaseConocimiento" where
  "BaseConocimientoBotanicoTDF reglas =
     \<lparr> obtener_reglas = reglas,
       obtener_regla_por_id = map_of (rev (map (\<lambda>r. (r_id r, r)) reglas)) \<rparr>"

text \<open>
  \<open>razon_terminacion\<close>: \<open>SinRazon\<close> is the empty string of \<open>__init__\<close>, \<open>AgendaVacia\<close> the
  message set before the \<open>break\<close>, \<open>LimiteCiclos n\<close> the message of the cycle limit \<open>n\<close>
  set after the loop.
\<close>

datatype Razon = SinRazon | AgendaVacia | LimiteCiclos int

text \<open>
  The engine. \<open>inferir\<close> reads and writes facts only through its parser, so \<open>mo_memoria\<close>
  is the memory the parser holds (in \<open>SistemaExpertoPlantaTDF\<close> the engine's own
  \<open>memoria\<close> is the same object).
\<close>

record MotorInferenciaAcademico =
  mo_memoria :: MemoriaTrabajo
  mo_agenda :: Agenda
  mo_max_ciclos :: int
  mo_razon_terminacion :: Razon
  mo_ciclos_ejecutados :: int

definition MotorInferenciaAcademico_init ::
  "MemoriaTrabajo \<Rightarrow> Agenda \<Rightarrow> int \<Rightarrow> MotorInferenciaAcademico" where
  "MotorInferenciaAcademico_init m ag limite =
     \<lparr> mo_memoria = m, mo_agenda = ag, mo_max_ciclos = limite,
       mo_razon_terminacion = SinRazon, mo_ciclos_ejecutados = 0 \<rparr>"

text \<open>
  MATCH: the \<open>for\<close> loop over the rules. The memory is only read; the state is the agenda
  and the number of clock readings taken so far.
\<close>

fun fase_match ::
  "(string list \<Rightarrow> string list) \<Rightarrow> (nat \<Rightarrow> int) \<Rightarrow> MemoriaTrabajo \<Rightarrow> ReglaProduccionAcademica list
    \<Rightarrow> Agenda \<times> nat \<Rightarrow> py_error + (Agenda \<times> nat)" where
  "fase_match orden reloj m [] st = Inr st"
| "fase_match orden reloj m (regla # resto) st =
     (case evaluar_regla orden m regla of
        Inl e \<Rightarrow> Inl e
      | Inr None \<Rightarrow> fase_match orden reloj m resto st
      | Inr (Some bnd) \<Rightarrow>
          fase_match orden reloj m resto
            (activar_regla (r_id regla) bnd [] (r_especificidad regla) (r_prioridad regla)
               (reloj (snd st)) (fst st),
             Suc (snd st)))"

text \<open>
  The body of the \<open>while\<close> loop after the cycle counter is incremented, on the memory, the
  agenda and the number of clock readings. The flag of the result is \<open>True\<close> when the body
  leaves the loop by \<open>break\<close>.
\<close>

definition ciclo ::
  "(string list \<Rightarrow> string list) \<Rightarrow> (nat \<Rightarrow> int) \<Rightarrow> BaseConocimiento
    \<Rightarrow> MemoriaTrabajo \<times> Agenda \<times> nat \<Rightarrow> py_error + (bool \<times> MemoriaTrabajo \<times> Agenda \<times> nat)" where
  "ciclo orden reloj kb w =
     (case w of (m, ag0, l0) \<Rightarrow>
       (case fase_match orden reloj m (obtener_reglas kb) (ag0, l0) of
          Inl e \<Rightarrow> Inl e
        | Inr (ag, l) \<Rightarrow>
            (case seleccionar_proxima_regla ag of
               Inl e \<Rightarrow> Inl e
             | Inr None \<Rightarrow> Inr (True, m, ag, l)
             | Inr (Some i) \<Rightarrow>
                 (case obtener_regla_por_id kb (ri_regla_id (ag_reglas_instanciadas ag ! i)) of
                    None \<Rightarrow> Inr (False, m, ag, l)
                  | Some regla_a_ejecutar \<Rightarrow>
                      (case ejecutar_acciones reloj regla_a_ejecutar
                              (ri_bindings (ag_reglas_instanciadas ag ! i)) (m, l) of
                         Inl e \<Rightarrow> Inl e
                       | Inr (creados, m', l') \<Rightarrow>
                           Inr (False, m', marcar_como_ejecutada i ag, l'))))))"

text \<open>
  The \<open>while\<close> loop: \<open>n\<close> is \<open>ciclos_ejecutados\<close>, \<open>razon\<close> is \<open>razon_terminacion\<close>.
\<close>

function bucle ::
  "(string list \<Rightarrow> string list) \<Rightarrow> (nat \<Rightarrow> int) \<Rightarrow> BaseConocimiento \<Rightarrow> int \<Rightarrow> int \<Rightarrow> Razon
    \<Rightarrow> MemoriaTrabajo \<times> Agenda \<times> nat
    \<Rightarrow> py_error + (int \<times> Razon \<times> MemoriaTrabajo \<times> Agenda \<times> nat)" where
  "bucle orden reloj kb max_ciclos n razon w =
     (if n < max_ciclos
      then (case ciclo orden reloj kb w of
              Inl e \<Rightarrow> Inl e
            | Inr (salir, w') \<Rightarrow>
                if salir then Inr (n + 1, AgendaVacia, w')
                else bucle orden reloj kb max_ciclos (n + 1) razon w')
      else Inr (n, razon, w))"
  by pat_completeness auto
termination
  by (relation "measure (\<lambda>(orden, reloj, kb, max_ciclos, n, razon, w). nat (max_ciclos - n))") auto

declare bucle.simps [simp del]

text \<open>
  \<open>inferir\<close>, on the engine and the number of clock readings taken before the call.
\<close>

definition inferir ::
  "(string list \<Rightarrow> string list) \<Rightarrow> (nat \<Rightarrow> int) \<Rightarrow> BaseConocimiento
    \<Rightarrow> MotorInferenciaAcademico \<times> nat \<Rightarrow> py_error + (MotorInferenciaAcademico \<times> nat)" where
  "inferir orden reloj kb ml =
     (case ml of (motor, l0) \<Rightarrow>
       (case bucle orden reloj kb (mo_max_ciclos motor) 0 (mo_razon_terminacion motor)
               (mo_memoria motor, mo_agenda motor, l0) of
          Inl e \<Rightarrow> Inl e
        | Inr (n, razon, m, ag, l) \<Rightarrow>
            Inr (motor\<lparr> mo_memoria := m, mo_agenda := ag, mo_ciclos_ejecutados := n,
                        mo_razon_terminacion :=
                          (if n \<ge> mo_max_ciclos motor then LimiteCiclos (mo_max_ciclos motor)
                           else razon) \<rparr>,
                 l)))"
section \<open>Notions used to state the properties\<close>

text \<open>
  The sequence number that an id carries: the decimal value of what follows the letter.
\<close>

definition valor_digito :: "char \<Rightarrow> nat" where
  "valor_digito c = of_char c - 48"

definition numero_id :: "string \<Rightarrow> nat" where
  "numero_id s = foldl (\<lambda>a c. 10 * a + valor_digito c) 0 (tl s)"

text \<open>The facts of the store that carry predicate \<open>p\<close>, in creation order.\<close>

definition hechos_de :: "MemoriaTrabajo \<Rightarrow> string \<Rightarrow> Hecho list" where
  "hechos_de m p = filter (\<lambda>h. h_predicado h = p) (map snd (mt_hechos m))"

text \<open>
  The invariant of a memory within a session (it holds after \<open>__init__\<close> and after
  \<open>limpiar_memoria\<close>, and \<open>assert_hecho\<close> keeps it): the keys of \<open>_hechos\<close> are the ids of
  the counter values \<open>1 .. _contador_hechos\<close> in order, every fact is stored under its own
  id, the predicate index of \<open>p\<close> holds exactly the ids of the facts of predicate \<open>p\<close>,
  and the type index has every member of \<open>TipoHecho\<close> as a key.
\<close>

definition wf_memoria :: "MemoriaTrabajo \<Rightarrow> bool" where
  "wf_memoria m \<longleftrightarrow>
     map fst (mt_hechos m) = map generar_id [1 ..< Suc (mt_contador_hechos m)] \<and>
     (\<forall>kh \<in> set (mt_hechos m). h_id (snd kh) = fst kh) \<and>
     (\<forall>p. set (dict_get (mt_indice_por_predicado m) p [])
            = h_id ` set (hechos_de m p)) \<and>
     (\<forall>t. mt_indice_por_tipo m t \<noteq> None)"

text \<open>The fact that \<open>assert_hecho\<close> builds from its arguments in memory \<open>m\<close>.\<close>

definition nuevo_hecho ::
  "string \<Rightarrow> pyval \<Rightarrow> TipoHecho \<Rightarrow> string option \<Rightarrow> string \<Rightarrow> real \<Rightarrow> int \<Rightarrow> MemoriaTrabajo \<Rightarrow> Hecho" where
  "nuevo_hecho p v t og j c ts m =
     \<lparr> h_id = generar_id (Suc (mt_contador_hechos m)), h_predicado = p, h_valor = v, h_tipo = t,
       h_origen = og, h_timestamp = ts, h_justificacion = j, h_confianza = c \<rparr>"

text \<open>
  A sequence of calls of \<open>assert_hecho\<close> on one memory, each call given by its arguments
  and the clock reading it takes; the result is the list of the ids returned.
\<close>

type_synonym llamada = "string \<times> pyval \<times> TipoHecho \<times> string option \<times> string \<times> real \<times> int"

fun llamadas_assert_hecho ::
  "llamada list \<Rightarrow> MemoriaTrabajo \<Rightarrow> py_error + (string list \<times> MemoriaTrabajo)" where
  "llamadas_assert_hecho [] m = Inr ([], m)"
| "llamadas_assert_hecho ((p, v, t, og, j, c, ts) # resto) m =
     (case assert_hecho p v t og j c ts m of
        Inl e \<Rightarrow> Inl e
      | Inr (k, m') \<Rightarrow>
          (case llamadas_assert_hecho resto m' of
             Inl e \<Rightarrow> Inl e
           | Inr (ks, m'') \<Rightarrow> Inr (k # ks, m'')))"

subsection \<open>Example states\<close>

text \<open>
  Two facts of predicate \<open>p\<close> asserted at the same clock reading, and the memory that the
  two calls \<open>llamadas_empate\<close> build from a fresh memory.
\<close>

definition hecho_a :: Hecho where
  "hecho_a = \<lparr> h_id = ''F0001'', h_predicado = ''p'', h_valor = VInt 1, h_tipo = INICIAL,
      h_origen = None, h_timestamp = 0, h_justificacion = [], h_confianza = 1 \<rparr>"

definition hecho_b :: Hecho where
  "hecho_b = \<lparr> h_id = ''F0002'', h_predicado = ''p'', h_valor = VInt 2, h_tipo = DERIVADO,
      h_origen = Some ''R1'', h_timestamp = 0, h_justificacion = [], h_confianza = 5 / 2 \<rparr>"

definition memoria_empate :: MemoriaTrabajo where
  "memoria_empate =
     \<lparr> mt_hechos = [(''F0001'', hecho_a), (''F0002'', hecho_b)],
       mt_indice_por_predicado = [''p'' \<mapsto> [''F0001'', ''F0002'']],
       mt_indice_por_tipo = (\<lambda>t. Some [])(INICIAL \<mapsto> [''F0001''], DERIVADO \<mapsto> [''F0002'']),
       mt_contador_hechos = 2 \<rparr>"

definition llamadas_empate :: "llamada list" where
  "llamadas_empate =
     [(''p'', VInt 1, INICIAL, None, [], 1, 0),
      (''p'', VInt 2, DERIVADO, Some ''R1'', [], 5 / 2, 0)]"

text \<open>
  The key that the strategy compares, as the claim names it: the specificity, the
  activation timestamp or the explicit priority (the integers read as reals).
\<close>

fun clave :: "EstrategiaConflictResolution \<Rightarrow> ReglaInstanciada \<Rightarrow> real" where
  "clave ESPECIFICIDAD r = real_of_int (ri_especificidad r)"
| "clave RECENCIA r = real_of_int (ri_timestamp_activacion r)"
| "clave PRIORIDAD_EXPLICITA r = ri_prioridad_explicita r"

text \<open>A condition, an action and a rule to evaluate the definitions on.\<close>

definition cond_ejemplo :: "OperadorCondicion \<Rightarrow> pyval \<Rightarrow> CondicionRegla" where
  "cond_ejemplo op v =
     \<lparr> c_predicado = ''p'', c_operador = op, c_valor = v, c_variable = Some ''x'',
       c_peso = 1, c_explicacion = [] \<rparr>"

definition accion_ejemplo :: "TipoAccion \<Rightarrow> pyval \<Rightarrow> AccionRegla" where
  "accion_ejemplo t v =
     \<lparr> a_tipo = t, a_predicado = ''q'', a_valor = v, a_parametros = [],
       a_confianza = 9 / 10, a_explicacion = ''porque'' \<rparr>"

definition regla_ejemplo :: "CondicionRegla list \<Rightarrow> AccionRegla list \<Rightarrow> ReglaProduccionAcademica" where
  "regla_ejemplo cs as = post_init ''R1'' ''regla'' cs as 1 None None [] [] []"

text \<open>
  An agenda of four activations: the second and the third tie on every key, the fourth has
  the greatest keys and is already executed.
\<close>

definition activacion_ejemplo :: "string \<Rightarrow> int \<Rightarrow> int \<Rightarrow> real \<Rightarrow> bool \<Rightarrow> ReglaInstanciada" where
  "activacion_ejemplo rid esp ts pr ej =
     \<lparr> ri_regla_id = rid, ri_bindings = Map.empty, ri_hechos_activadores = [],
       ri_timestamp_activacion = ts, ri_especificidad = esp, ri_prioridad_explicita = pr,
       ri_ya_ejecutada = ej \<rparr>"

definition agenda_ejemplo :: "EstrategiaConflictResolution \<Rightarrow> Agenda" where
  "agenda_ejemplo e =
     \<lparr> ag_reglas_instanciadas =
         [activacion_ejemplo ''R0'' 2 5 1 False,
          activacion_ejemplo ''R1'' 3 7 (19 / 2) False,
          activacion_ejemplo ''R2'' 3 7 (19 / 2) False,
          activacion_ejemplo ''R3'' 9 9 10 True],
       ag_estrategia = e, ag_historial_ejecucion = [3] \<rparr>"

subsection \<open>Notions for the rule actions and the engine\<close>

text \<open>The activation that the MATCH phase appends for a rule, its bindings and a clock reading.\<close>

definition activacion_de :: "ReglaProduccionAcademica \<Rightarrow> (string \<rightharpoonup> pyval) \<Rightarrow> int \<Rightarrow> ReglaInstanciada" where
  "activacion_de regla bnd ahora =
     \<lparr> ri_regla_id = r_id regla, ri_bindings = bnd, ri_hechos_activadores = [],
       ri_timestamp_activacion = ahora, ri_especificidad = r_especificidad regla,
       ri_prioridad_explicita = r_prioridad regla, ri_ya_ejecutada = False \<rparr>"

text \<open>
  The resolution of an action value in the words of the specification: a string that
  starts with the marker and names a bound variable stands for the bound value; a marked
  string whose variable is unbound, and every other value, stands for itself.
\<close>

fun spec_valor :: "(string \<rightharpoonup> pyval) \<Rightarrow> pyval \<Rightarrow> pyval" where
  "spec_valor bnd (VStr (c # nombre)) =
     (if c = CHR ''$''
      then (case bnd nombre of Some v \<Rightarrow> v | None \<Rightarrow> VStr (c # nombre))
      else VStr (c # nombre))"
| "spec_valor bnd v = v"

text \<open>
  The category of the fact an action creates, in the words of the specification:
  \<open>ASSERT\<close> a derived fact, \<open>CONCLUDE\<close> and \<open>RECOMMEND\<close> a conclusion, the other kinds
  none.
\<close>

fun spec_tipo :: "TipoAccion \<Rightarrow> TipoHecho option" where
  "spec_tipo ASSERT = Some DERIVADO"
| "spec_tipo CONCLUDE = Some CONCLUSION"
| "spec_tipo RECOMMEND = Some CONCLUSION"
| "spec_tipo _ = None"

text \<open>
  What the claim says of a created fact (predicate, value, category, origin, confidence,
  justification), read off a stored fact and off the action that is to produce it.
\<close>

definition campos_hecho ::
  "string \<times> Hecho \<Rightarrow> string \<times> pyval \<times> TipoHecho option \<times> string option \<times> real \<times> string" where
  "campos_hecho kh =
     (h_predicado (snd kh), h_valor (snd kh), Some (h_tipo (snd kh)), h_origen (snd kh),
      h_confianza (snd kh), h_justificacion (snd kh))"

definition campos_accion ::
  "ReglaProduccionAcademica \<Rightarrow> (string \<rightharpoonup> pyval) \<Rightarrow> AccionRegla
    \<Rightarrow> string \<times> pyval \<times> TipoHecho option \<times> string option \<times> real \<times> string" where
  "campos_accion regla bnd a =
     (a_predicado a, spec_valor bnd (a_valor a), spec_tipo (a_tipo a), Some (r_id regla),
      a_confianza a, a_explicacion a)"

text \<open>
  More example data: an engine on a fresh memory and agenda; a rule without conditions;
  a knowledge base that lists this rule and finds no rule by id; the agenda after \<open>n\<close>
  MATCH phases of that knowledge base; and a rule with one action of each interesting kind.
\<close>

definition motor_ejemplo :: "EstrategiaConflictResolution \<Rightarrow> int \<Rightarrow> MotorInferenciaAcademico" where
  "motor_ejemplo e limite =
     MotorInferenciaAcademico_init MemoriaTrabajo_init (Agenda_init e) limite"

definition regla_huerfana :: ReglaProduccionAcademica where
  "regla_huerfana = regla_ejemplo [] [accion_ejemplo ASSERT (VInt 1)]"

definition kb_incoherente :: BaseConocimiento where
  "kb_incoherente = \<lparr> obtener_reglas = [regla_huerfana], obtener_regla_por_id = (\<lambda>k. None) \<rparr>"

definition agenda_huerfana :: "nat \<Rightarrow> Agenda" where
  "agenda_huerfana n =
     \<lparr> ag_reglas_instanciadas = map (\<lambda>k. activacion_de regla_huerfana Map.empty (int k)) [0 ..< n],
       ag_estrategia = ESPECIFICIDAD, ag_historial_ejecucion = [] \<rparr>"

definition regla_acciones :: ReglaProduccionAcademica where
  "regla_acciones =
     regla_ejemplo []
       [accion_ejemplo ASSERT (VStr ''$x''), accion_ejemplo RETRACT (VInt 0),
        accion_ejemplo RECOMMEND (VStr ''$y''), accion_ejemplo CONCLUDE (VInt 3)]"

text \<open>
  The number of activations on the agenda that carry the id of a rule and empty bindings,
  executed or not; and the knowledge base of the repository's class over the single rule
  without conditions.
\<close>

definition activaciones_de :: "ReglaProduccionAcademica \<Rightarrow> Agenda \<Rightarrow> nat" where
  "activaciones_de regla ag =
     length (filter (\<lambda>a. ri_regla_id a = r_id regla \<and> ri_bindings a = Map.empty)
               (ag_reglas_instanciadas ag))"

definition kb_una_regla :: BaseConocimiento where
  "kb_una_regla = BaseConocimientoBotanicoTDF [regla_huerfana]"

section \<open>Auxiliary lemmas\<close>

subsection \<open>Fact ids\<close>

lemma valor_digito_digito: "d < 10 \<Longrightarrow> valor_digito (digito d) = d"
proof -
  assume "d < 10"
  then have "d \<in> {0,1,2,3,4,5,6,7,8,9}" by auto
  then show ?thesis by (auto simp: valor_digito_def digito_def)
qed

lemma valor_digitos: "foldl (\<lambda>a c. 10 * a + valor_digito c) 0 (digitos n) = n"
proof (induction n rule: digitos.induct)
  case (1 n)
  show ?case
  proof (cases "n < 10")
    case True
    then show ?thesis by (subst digitos.simps) (simp add: valor_digito_digito)
  next
    case False
    with 1 show ?thesis by (subst digitos.simps) (simp add: valor_digito_digito)
  qed
qed

lemma valor_ceros: "foldl (\<lambda>a c. 10 * a + valor_digito c) 0 (replicate k CHR ''0'') = 0"
  by (induction k) (simp_all add: valor_digito_def)

lemma numero_id_generar_id: "numero_id (generar_id n) = n"
  by (simp add: numero_id_def generar_id_def valor_ceros valor_digitos)

lemma generar_id_inj: "generar_id a = generar_id b \<Longrightarrow> a = b"
  by (metis numero_id_generar_id)

lemma dict_set_fresh: "k \<notin> fst ` set d \<Longrightarrow> dict_set d k v = d @ [(k, v)]"
  by (induction d k v rule: dict_set.induct) auto

lemma wf_init: "wf_memoria MemoriaTrabajo_init"
  by (simp add: wf_memoria_def MemoriaTrabajo_init_def hechos_de_def dict_get_def)

lemma wf_limpiar: "wf_memoria (limpiar_memoria m)"
  by (simp add: wf_memoria_def limpiar_memoria_def hechos_de_def dict_get_def)

lemma wf_fresh:
  assumes "wf_memoria m"
  shows "generar_id (Suc (mt_contador_hechos m)) \<notin> fst ` set (mt_hechos m)"
proof
  assume "generar_id (Suc (mt_contador_hechos m)) \<in> fst ` set (mt_hechos m)"
  then have "generar_id (Suc (mt_contador_hechos m)) \<in> set (map fst (mt_hechos m))" by simp
  also have "map fst (mt_hechos m) = map generar_id [1 ..< Suc (mt_contador_hechos m)]"
    using assms unfolding wf_memoria_def by blast
  finally have "generar_id (Suc (mt_contador_hechos m)) \<in> generar_id ` {1 ..< Suc (mt_contador_hechos m)}"
    by (simp del: upt_Suc)
  then obtain k where "k < Suc (mt_contador_hechos m)"
    "generar_id (Suc (mt_contador_hechos m)) = generar_id k" by auto
  then show False using generar_id_inj by fastforce
qed

lemma assert_hecho_wf:
  assumes "wf_memoria m"
  shows "\<exists>m'. assert_hecho p v t og j c ts m = Inr (generar_id (Suc (mt_contador_hechos m)), m')
           \<and> mt_hechos m' = mt_hechos m @ [(generar_id (Suc (mt_contador_hechos m)), nuevo_hecho p v t og j c ts m)]
           \<and> mt_contador_hechos m' = Suc (mt_contador_hechos m)
           \<and> wf_memoria m'"
proof -
  let ?k = "generar_id (Suc (mt_contador_hechos m))"
  let ?h = "nuevo_hecho p v t og j c ts m"
  have "mt_indice_por_tipo m t \<noteq> None"
    using assms unfolding wf_memoria_def by blast
  then obtain s where s: "mt_indice_por_tipo m t = Some s" by blast
  have fresh: "?k \<notin> fst ` set (mt_hechos m)" by (rule wf_fresh [OF assms])
  define m' where "m' = \<lparr> mt_hechos = mt_hechos m @ [(?k, ?h)],
      mt_indice_por_predicado = (mt_indice_por_predicado m)
         (p \<mapsto> set_add (dict_get (mt_indice_por_predicado m) p []) ?k),
      mt_indice_por_tipo = (mt_indice_por_tipo m)(t \<mapsto> set_add s ?k),
      mt_contador_hechos = Suc (mt_contador_hechos m) \<rparr>"
  have eq: "assert_hecho p v t og j c ts m = Inr (?k, m')"
    using s dict_set_fresh [OF fresh]
    by (simp add: assert_hecho_def Let_def m'_def nuevo_hecho_def)
  have "map fst (mt_hechos m) = map generar_id [1 ..< Suc (mt_contador_hechos m)]"
    using assms unfolding wf_memoria_def by blast
  then have w1: "map fst (mt_hechos m') = map generar_id [1 ..< Suc (mt_contador_hechos m')]"
    by (simp add: m'_def)
  have "\<forall>kh \<in> set (mt_hechos m). h_id (snd kh) = fst kh"
    using assms unfolding wf_memoria_def by blast
  then have w2: "\<forall>kh \<in> set (mt_hechos m'). h_id (snd kh) = fst kh"
    by (auto simp: m'_def nuevo_hecho_def)
  have w3: "set (dict_get (mt_indice_por_predicado m') q [])
            = h_id ` set (hechos_de m' q)" for q
  proof -
    have old: "set (dict_get (mt_indice_por_predicado m) q [])
            = h_id ` set (hechos_de m q)"
      using assms unfolding wf_memoria_def by blast
    show ?thesis
    proof (cases "q = p")
      case True
      then show ?thesis using old
        by (auto simp: m'_def hechos_de_def set_add_def nuevo_hecho_def dict_get_def)
    next
      case False
      then show ?thesis using old
        by (auto simp: m'_def hechos_de_def nuevo_hecho_def dict_get_def)
    qed
  qed
  have "\<forall>t'. mt_indice_por_tipo m t' \<noteq> None"
    using assms unfolding wf_memoria_def by blast
  then have w4: "\<forall>t'. mt_indice_por_tipo m' t' \<noteq> None"
    by (simp add: m'_def)
  have "wf_memoria m'" unfolding wf_memoria_def using w1 w2 w3 w4 by blast
  then show ?thesis using eq by (auto simp: m'_def)
qed


lemma max_desde_split:
  "\<exists>pre post. m # xs = pre @ max_desde key m xs # post
      \<and> (\<forall>x \<in> set pre. key x < key (max_desde key m xs))
      \<and> (\<forall>x \<in> set post. key x \<le> key (max_desde key m xs))"
proof (induction xs arbitrary: m)
  case Nil
  have "[m] = [] @ max_desde key m [] # []" by simp
  then show ?case by (metis empty_iff list.set(1))
next
  case (Cons x xs)
  show ?case
  proof (cases "key m < key x")
    case True
    from Cons.IH [of x] obtain pre post where
      s: "x # xs = pre @ max_desde key x xs # post"
      and a: "\<forall>y \<in> set pre. key y < key (max_desde key x xs)"
      and b: "\<forall>y \<in> set post. key y \<le> key (max_desde key x xs)" by blast
    have "x \<in> set (pre @ max_desde key x xs # post)" using s by (metis list.set_intros(1))
    then have "key x \<le> key (max_desde key x xs)" using a b by auto
    then have m: "key m < key (max_desde key x xs)" using True by simp
    have "m # x # xs = (m # pre) @ max_desde key x xs # post" using s by simp
    then show ?thesis using True a b m
      by (metis max_desde.simps(2) set_ConsD)
  next
    case False
    from Cons.IH [of m] obtain pre post where
      s: "m # xs = pre @ max_desde key m xs # post"
      and a: "\<forall>y \<in> set pre. key y < key (max_desde key m xs)"
      and b: "\<forall>y \<in> set post. key y \<le> key (max_desde key m xs)" by blast
    have r: "max_desde key m (x # xs) = max_desde key m xs" using False by simp
    show ?thesis
    proof (cases pre)
      case Nil
      from s Nil have e: "max_desde key m xs = m" "xs = post"
        by (metis append_Nil list.inject)+
      have "m # x # xs = [] @ m # (x # post)" using e by simp
      moreover have "\<forall>y \<in> set (x # post). key y \<le> key m" using b e False by auto
      ultimately show ?thesis unfolding r e(1) by (metis empty_iff list.set(1))
    next
      case (Cons p pre')
      from s Cons have e: "p = m" "xs = pre' @ max_desde key m xs # post"
        by (metis append_Cons list.inject)+
      have "key m < key (max_desde key m xs)" using a Cons e by simp
      then have "key x < key (max_desde key m xs)" using False by simp
      then have "\<forall>y \<in> set (m # x # pre'). key y < key (max_desde key m xs)"
        using a Cons e by simp
      moreover have "m # x # xs = (m # x # pre') @ max_desde key m xs # post"
        using e by simp
      ultimately show ?thesis unfolding r using b by blast
    qed
  qed
qed

lemma py_max_split:
  assumes "xs \<noteq> []"
  shows "\<exists>r pre post. py_max key xs = Inr r \<and> xs = pre @ r # post
      \<and> (\<forall>x \<in> set pre. key x < key r) \<and> (\<forall>x \<in> set post. key x \<le> key r)"
proof -
  obtain y ys where xs: "xs = y # ys" using assms by (cases xs) auto
  from max_desde_split [of y ys key] show ?thesis
    unfolding xs py_max_def by simp
qed

lemma py_max_mayor:
  assumes "xs \<noteq> []"
  shows "\<exists>r. py_max key xs = Inr r \<and> r \<in> set xs \<and> (\<forall>x \<in> set xs. key x \<le> key r)"
proof -
  from py_max_split [OF assms, of key] obtain r pre post where
    "py_max key xs = Inr r" "xs = pre @ r # post"
    "\<forall>x \<in> set pre. key x < key r" "\<forall>x \<in> set post. key x \<le> key r" by blast
  then show ?thesis by (auto intro: less_imp_le)
qed

lemma wf_distinct:
  assumes "wf_memoria m"
  shows "distinct (map fst (mt_hechos m))"
proof -
  have "map fst (mt_hechos m) = map generar_id [1 ..< Suc (mt_contador_hechos m)]"
    using assms unfolding wf_memoria_def by blast
  moreover have "inj_on generar_id A" for A
    by (rule inj_onI) (rule generar_id_inj)
  ultimately show ?thesis by (simp add: distinct_map del: upt_Suc)
qed

lemma wf_map_of:
  assumes "wf_memoria m" "h \<in> set (map snd (mt_hechos m))"
  shows "map_of (mt_hechos m) (h_id h) = Some h"
proof -
  from assms(2) obtain k where kh: "(k, h) \<in> set (mt_hechos m)" by auto
  have "\<forall>kh \<in> set (mt_hechos m). h_id (snd kh) = fst kh"
    using assms(1) unfolding wf_memoria_def by blast
  with kh have "k = h_id h" by auto
  with kh show ?thesis using wf_distinct [OF assms(1)] by simp
qed

lemma buscar_hechos_ok:
  assumes "\<forall>k \<in> set ks. \<exists>h. map_of hs k = Some h"
  shows "buscar_hechos hs ks = Inr (map (\<lambda>k. the (map_of hs k)) ks)"
  using assms by (induction ks) auto

lemma wf_buscar:
  assumes "wf_memoria m"
    and "set ks = set (dict_get (mt_indice_por_predicado m) p [])"
  shows "\<exists>fs. buscar_hechos (mt_hechos m) ks = Inr fs \<and> set fs = set (hechos_de m p)
            \<and> length fs = length ks"
proof -
  have idx: "set ks = h_id ` set (hechos_de m p)"
    using assms unfolding wf_memoria_def by simp
  have sub: "set (hechos_de m p) \<subseteq> set (map snd (mt_hechos m))"
    by (auto simp: hechos_de_def)
  have look: "map_of (mt_hechos m) (h_id h) = Some h" if "h \<in> set (hechos_de m p)" for h
    using wf_map_of [OF assms(1)] that sub by blast
  have all: "\<forall>k \<in> set ks. \<exists>h. map_of (mt_hechos m) k = Some h"
    using idx look by auto
  have "set (map (\<lambda>k. the (map_of (mt_hechos m) k)) ks) = set (hechos_de m p)"
  proof -
    have "set (map (\<lambda>k. the (map_of (mt_hechos m) k)) ks)
          = (\<lambda>k. the (map_of (mt_hechos m) k)) ` h_id ` set (hechos_de m p)"
      using idx by simp
    also have "\<dots> = (\<lambda>h. h) ` set (hechos_de m p)"
      unfolding image_image by (rule image_cong) (simp_all add: look)
    finally show ?thesis by simp
  qed
  then show ?thesis using buscar_hechos_ok [OF all] by simp
qed

lemma obtener_hecho_wf:
  assumes "wf_memoria m" and "\<And>xs. set (orden xs) = set xs"
  shows "(hechos_de m p = [] \<longrightarrow> obtener_hecho orden m p = Inr None) \<and>
         (hechos_de m p \<noteq> [] \<longrightarrow>
            (\<exists>h. obtener_hecho orden m p = Inr (Some h) \<and> h \<in> set (hechos_de m p)
                \<and> (\<forall>h' \<in> set (hechos_de m p). h_timestamp h' \<le> h_timestamp h)))"
proof -
  let ?ids = "dict_get (mt_indice_por_predicado m) p []"
  have idx: "set ?ids = h_id ` set (hechos_de m p)"
    using assms(1) unfolding wf_memoria_def by blast
  show ?thesis
  proof (cases "hechos_de m p = []")
    case True
    have "set ?ids = {}" unfolding idx True by simp
    then have "?ids = []" by (simp only: set_empty)
    then show ?thesis using True by (simp add: obtener_hecho_def)
  next
    case False
    then have ne: "?ids \<noteq> []" using idx by auto
    from wf_buscar [OF assms(1), of "orden ?ids" p] assms(2) obtain fs where
      fs: "buscar_hechos (mt_hechos m) (orden ?ids) = Inr fs" "set fs = set (hechos_de m p)"
      by auto
    then have "fs \<noteq> []" using False by auto
    from py_max_mayor [OF this, of h_timestamp] obtain r where
      r: "py_max h_timestamp fs = Inr r" "r \<in> set fs" "\<forall>x \<in> set fs. h_timestamp x \<le> h_timestamp r"
      by blast
    have "obtener_hecho orden m p = Inr (Some r)"
      using ne fs(1) r(1) by (simp add: obtener_hecho_def)
    then show ?thesis using False r fs(2) by auto
  qed
qed


lemma generar_id_1: "generar_id (Suc 0) = ''F0001''"
  by code_simp

lemma generar_id_2: "generar_id (Suc (Suc 0)) = ''F0002''"
  by code_simp

lemma llamadas_ids:
  assumes "wf_memoria m"
  shows "\<exists>m' nuevos. llamadas_assert_hecho cs m =
             Inr (map generar_id [Suc (mt_contador_hechos m) ..< Suc (mt_contador_hechos m) + length cs], m')
           \<and> mt_hechos m' = mt_hechos m @ nuevos
           \<and> map fst nuevos = map generar_id [Suc (mt_contador_hechos m) ..< Suc (mt_contador_hechos m) + length cs]
           \<and> wf_memoria m'"
  using assms
proof (induction cs arbitrary: m)
  case Nil
  then show ?case by (simp del: upt_Suc)
next
  case (Cons c cs)
  obtain p v t og j cf ts where c: "c = (p, v, t, og, j, cf, ts)" by (cases c) auto
  from assert_hecho_wf [OF Cons.prems, of p v t og j cf ts] obtain m1 where
    m1: "assert_hecho p v t og j cf ts m = Inr (generar_id (Suc (mt_contador_hechos m)), m1)"
        "mt_hechos m1 = mt_hechos m @ [(generar_id (Suc (mt_contador_hechos m)), nuevo_hecho p v t og j cf ts m)]"
        "mt_contador_hechos m1 = Suc (mt_contador_hechos m)" "wf_memoria m1" by blast
  from Cons.IH [OF m1(4)] obtain m' nuevos where
    r: "llamadas_assert_hecho cs m1 =
          Inr (map generar_id [Suc (mt_contador_hechos m1) ..< Suc (mt_contador_hechos m1) + length cs], m')"
       "mt_hechos m' = mt_hechos m1 @ nuevos"
       "map fst nuevos = map generar_id [Suc (mt_contador_hechos m1) ..< Suc (mt_contador_hechos m1) + length cs]"
       "wf_memoria m'" by blast
  have u: "[Suc (mt_contador_hechos m) ..< Suc (mt_contador_hechos m) + length (c # cs)]
           = Suc (mt_contador_hechos m) # [Suc (mt_contador_hechos m1) ..< Suc (mt_contador_hechos m1) + length cs]"
    by (simp add: m1(3) upt_conv_Cons del: upt_Suc)
  have "llamadas_assert_hecho (c # cs) m =
          Inr (map generar_id [Suc (mt_contador_hechos m) ..< Suc (mt_contador_hechos m) + length (c # cs)], m')"
    using m1(1) r(1) u by (simp del: upt_Suc add: c)
  moreover have "mt_hechos m' = mt_hechos m @
       ((generar_id (Suc (mt_contador_hechos m)), nuevo_hecho p v t og j cf ts m) # nuevos)"
    using m1(2) r(2) by simp
  moreover have "map fst ((generar_id (Suc (mt_contador_hechos m)), nuevo_hecho p v t og j cf ts m) # nuevos)
       = map generar_id [Suc (mt_contador_hechos m) ..< Suc (mt_contador_hechos m) + length (c # cs)]"
    using r(3) u by (simp del: upt_Suc)
  ultimately show ?case using r(4) by blast
qed

lemma llamadas_empate_ok:
  "llamadas_assert_hecho llamadas_empate MemoriaTrabajo_init = Inr ([''F0001'', ''F0002''], memoria_empate)"
  by (simp add: llamadas_empate_def MemoriaTrabajo_init_def memoria_empate_def assert_hecho_def
      Let_def generar_id_1 generar_id_2 set_add_def dict_get_def hecho_a_def hecho_b_def fun_upd_twist)

lemma wf_empate: "wf_memoria memoria_empate"
  using llamadas_ids [OF wf_init, of llamadas_empate] llamadas_empate_ok by auto

subsection \<open>The agenda\<close>

lemma candidatos_set:
  "set (candidatos ag) =
     {i. i < length (ag_reglas_instanciadas ag) \<and> \<not> ri_ya_ejecutada (ag_reglas_instanciadas ag ! i)}"
  by (auto simp: candidatos_def)

lemma candidatos_sorted: "sorted (candidatos ag)"
  by (simp add: candidatos_def sorted_wrt_filter)

lemma py_max_candidatos:
  fixes key :: "nat \<Rightarrow> 'k::linorder"
  assumes "candidatos ag \<noteq> []"
  shows "\<exists>i. py_max key (candidatos ag) = Inr i \<and> i \<in> set (candidatos ag)
           \<and> (\<forall>j \<in> set (candidatos ag). key j \<le> key i \<and> (j < i \<longrightarrow> key j < key i))"
proof -
  from py_max_split [OF assms, of key] obtain r pre post where
    r: "py_max key (candidatos ag) = Inr r" "candidatos ag = pre @ r # post"
       "\<forall>x \<in> set pre. key x < key r" "\<forall>x \<in> set post. key x \<le> key r" by blast
  have s: "sorted (pre @ r # post)" using candidatos_sorted [of ag] r(2) by simp
  have post: "\<forall>x \<in> set post. r \<le> x" using s by (simp add: sorted_append)
  have "key j \<le> key r \<and> (j < r \<longrightarrow> key j < key r)" if "j \<in> set (candidatos ag)" for j
  proof -
    from that r(2) consider "j \<in> set pre" | "j = r" | "j \<in> set post" by auto
    then show ?thesis
    proof cases
      case 1 then show ?thesis using r(3) by (simp add: less_imp_le)
    next
      case 2 then show ?thesis by simp
    next
      case 3 then show ?thesis using r(4) post by auto
    qed
  qed
  moreover have "r \<in> set (candidatos ag)" using r(2) by simp
  ultimately show ?thesis using r(1) by blast
qed

lemma seleccionar_clave:
  assumes "candidatos ag \<noteq> []"
  shows "\<exists>i. seleccionar_proxima_regla ag = Inr (Some i) \<and> i \<in> set (candidatos ag)
           \<and> (\<forall>j \<in> set (candidatos ag).
                  clave (ag_estrategia ag) (ag_reglas_instanciadas ag ! j)
                    \<le> clave (ag_estrategia ag) (ag_reglas_instanciadas ag ! i)
                  \<and> (j < i \<longrightarrow> clave (ag_estrategia ag) (ag_reglas_instanciadas ag ! j)
                                < clave (ag_estrategia ag) (ag_reglas_instanciadas ag ! i)))"
proof (cases "ag_estrategia ag")
  case ESPECIFICIDAD
  from py_max_candidatos [OF assms, of "\<lambda>i. ri_especificidad (ag_reglas_instanciadas ag ! i)"]
  show ?thesis using assms ESPECIFICIDAD by (auto simp: seleccionar_proxima_regla_def)
next
  case RECENCIA
  from py_max_candidatos [OF assms, of "\<lambda>i. ri_timestamp_activacion (ag_reglas_instanciadas ag ! i)"]
  show ?thesis using assms RECENCIA by (auto simp: seleccionar_proxima_regla_def)
next
  case PRIORIDAD_EXPLICITA
  from py_max_candidatos [OF assms, of "\<lambda>i. ri_prioridad_explicita (ag_reglas_instanciadas ag ! i)"]
  show ?thesis using assms PRIORIDAD_EXPLICITA by (auto simp: seleccionar_proxima_regla_def)
qed

lemma seleccionar_vacia: "candidatos ag = [] \<Longrightarrow> seleccionar_proxima_regla ag = Inr None"
  by (simp add: seleccionar_proxima_regla_def)

lemma seleccionar_casos:
  "(candidatos ag = [] \<and> seleccionar_proxima_regla ag = Inr None) \<or>
   (\<exists>i. seleccionar_proxima_regla ag = Inr (Some i) \<and> i < length (ag_reglas_instanciadas ag)
        \<and> \<not> ri_ya_ejecutada (ag_reglas_instanciadas ag ! i))"
proof (cases "candidatos ag = []")
  case True
  then show ?thesis by (simp add: seleccionar_vacia)
next
  case False
  from seleccionar_clave [OF False] obtain i where
    "seleccionar_proxima_regla ag = Inr (Some i)" "i \<in> set (candidatos ag)" by blast
  then show ?thesis by (auto simp: candidatos_set)
qed

subsection \<open>Evaluation of conditions\<close>

lemma obtener_insercion_empate: "obtener_hecho id memoria_empate ''p'' = Inr (Some hecho_a)"
  by (simp add: obtener_hecho_def memoria_empate_def dict_get_def py_max_def hecho_a_def hecho_b_def)

lemma obtener_hecho_sin_error:
  assumes "wf_memoria m" and "\<And>xs. set (orden xs) = set xs"
  shows "\<exists>r. obtener_hecho orden m p = Inr r"
  using obtener_hecho_wf [OF assms, of p] by (cases "hechos_de m p = []") auto

lemma evaluar_condicion_sin_error:
  assumes "wf_memoria m" and "\<And>xs. set (orden xs) = set xs"
  shows "\<exists>r. evaluar_condicion orden m c bnd = Inr r"
proof -
  from obtener_hecho_sin_error [OF assms, of "c_predicado c"] obtain h where
    "obtener_hecho orden m (c_predicado c) = Inr h" by blast
  then show ?thesis
    by (cases h) (auto simp: evaluar_condicion_def Let_def)
qed

lemma evaluar_condiciones_sin_error:
  assumes "wf_memoria m" and "\<And>xs. set (orden xs) = set xs"
  shows "\<exists>r. evaluar_condiciones orden m cs bnd = Inr r"
proof (induction cs arbitrary: bnd)
  case Nil
  show ?case by simp
next
  case (Cons c cs)
  from evaluar_condicion_sin_error [OF assms, of c bnd] obtain ok b where
    "evaluar_condicion orden m c bnd = Inr (ok, b)" by fastforce
  then show ?case using Cons.IH [of b] by simp
qed

subsection \<open>The MATCH phase\<close>

lemma evaluar_regla_sin_error:
  assumes "wf_memoria m" and "\<And>xs. set (orden xs) = set xs"
  shows "\<exists>r. evaluar_regla orden m regla = Inr r"
  unfolding evaluar_regla_def by (rule evaluar_condiciones_sin_error [OF assms])

lemma evaluar_regla_vacia:
  "r_condiciones regla = [] \<Longrightarrow> evaluar_regla orden m regla = Inr (Some Map.empty)"
  by (simp add: evaluar_regla_def)

lemma activar_regla_activacion_de:
  "activar_regla (r_id regla) bnd [] (r_especificidad regla) (r_prioridad regla) ahora ag
     = ag\<lparr>ag_reglas_instanciadas := ag_reglas_instanciadas ag @ [activacion_de regla bnd ahora]\<rparr>"
  by (simp add: activar_regla_def activacion_de_def)

lemma fase_match_append:
  assumes "wf_memoria m" and "\<And>xs. set (orden xs) = set xs"
  shows "\<exists>nuevos. fase_match orden reloj m reglas (ag, l) =
            Inr (ag\<lparr>ag_reglas_instanciadas := ag_reglas_instanciadas ag @ nuevos\<rparr>, l + length nuevos)
          \<and> (\<forall>x \<in> set nuevos. \<not> ri_ya_ejecutada x)
          \<and> (\<forall>r \<in> set reglas. r_condiciones r = [] \<longrightarrow>
                (\<exists>k. activacion_de r Map.empty (reloj k) \<in> set nuevos))"
proof (induction reglas arbitrary: ag l)
  case Nil
  have "fase_match orden reloj m [] (ag, l) =
          Inr (ag\<lparr>ag_reglas_instanciadas := ag_reglas_instanciadas ag @ []\<rparr>, l + length ([] :: ReglaInstanciada list))"
    by simp
  then show ?case by (metis empty_iff list.set(1))
next
  case (Cons regla resto)
  from evaluar_regla_sin_error [OF assms, of regla] obtain r where
    r: "evaluar_regla orden m regla = Inr r" by blast
  show ?case
  proof (cases r)
    case None
    then have ne: "r_condiciones regla \<noteq> []" using r evaluar_regla_vacia [of regla orden m] by auto
    from Cons.IH [of ag l] obtain nuevos where
      n: "fase_match orden reloj m resto (ag, l) =
            Inr (ag\<lparr>ag_reglas_instanciadas := ag_reglas_instanciadas ag @ nuevos\<rparr>, l + length nuevos)"
         "\<forall>x \<in> set nuevos. \<not> ri_ya_ejecutada x"
         "\<forall>r \<in> set resto. r_condiciones r = [] \<longrightarrow>
                (\<exists>k. activacion_de r Map.empty (reloj k) \<in> set nuevos)" by blast
    have "fase_match orden reloj m (regla # resto) (ag, l) =
            Inr (ag\<lparr>ag_reglas_instanciadas := ag_reglas_instanciadas ag @ nuevos\<rparr>, l + length nuevos)"
      using r None n(1) by simp
    then show ?thesis using n(2,3) ne by auto
  next
    case (Some bnd)
    let ?a = "activacion_de regla bnd (reloj l)"
    let ?ag = "ag\<lparr>ag_reglas_instanciadas := ag_reglas_instanciadas ag @ [?a]\<rparr>"
    from Cons.IH [of ?ag "Suc l"] obtain nuevos where
      n: "fase_match orden reloj m resto (?ag, Suc l) =
            Inr (?ag\<lparr>ag_reglas_instanciadas := ag_reglas_instanciadas ?ag @ nuevos\<rparr>, Suc l + length nuevos)"
         "\<forall>x \<in> set nuevos. \<not> ri_ya_ejecutada x"
         "\<forall>r \<in> set resto. r_condiciones r = [] \<longrightarrow>
                (\<exists>k. activacion_de r Map.empty (reloj k) \<in> set nuevos)" by blast
    have e: "fase_match orden reloj m (regla # resto) (ag, l) =
            Inr (ag\<lparr>ag_reglas_instanciadas := ag_reglas_instanciadas ag @ (?a # nuevos)\<rparr>,
                 l + length (?a # nuevos))"
      using r Some n(1) by (simp add: activar_regla_activacion_de)
    have b: "r_condiciones regla = [] \<longrightarrow> bnd = Map.empty"
      using r Some evaluar_regla_vacia [of regla orden m] by auto
    have 1: "\<forall>x \<in> set (?a # nuevos). \<not> ri_ya_ejecutada x"
      using n(2) by (simp add: activacion_de_def)
    have 2: "\<forall>r \<in> set (regla # resto). r_condiciones r = [] \<longrightarrow>
                (\<exists>k. activacion_de r Map.empty (reloj k) \<in> set (?a # nuevos))"
      using n(3) b by auto
    from e 1 2 show ?thesis by blast
  qed
qed

subsection \<open>Execution of actions\<close>

lemma valor_accion_spec:
  "(case v of
      VStr s \<Rightarrow> if take 1 s = ''$'' then dict_get bnd (drop 1 s) (VStr s) else VStr s
    | w \<Rightarrow> w) = spec_valor bnd v"
proof (cases v)
  case (VStr s)
  then show ?thesis by (cases s) (auto simp: dict_get_def split: option.splits)
qed simp_all

lemma ejecutar_accion_omite:
  "spec_tipo (a_tipo a) = None \<Longrightarrow> ejecutar_accion reloj regla bnd a st = Inr st"
  by (cases st; cases "a_tipo a") (simp_all add: ejecutar_accion_def Let_def)

lemma ejecutar_accion_crea:
  assumes "wf_memoria m" and "spec_tipo (a_tipo a) = Some t"
  shows "\<exists>m'. ejecutar_accion reloj regla bnd a (cs, m, l) =
            Inr (cs @ [generar_id (Suc (mt_contador_hechos m))], m', Suc l)
          \<and> mt_hechos m' = mt_hechos m @
               [(generar_id (Suc (mt_contador_hechos m)),
                 nuevo_hecho (a_predicado a) (spec_valor bnd (a_valor a)) t (Some (r_id regla))
                   (a_explicacion a) (a_confianza a) (reloj l) m)]
          \<and> wf_memoria m'"
proof -
  from assert_hecho_wf [OF assms(1), of "a_predicado a" "spec_valor bnd (a_valor a)" t
      "Some (r_id regla)" "a_explicacion a" "a_confianza a" "reloj l"]
  obtain m' where
    m': "assert_hecho (a_predicado a) (spec_valor bnd (a_valor a)) t (Some (r_id regla))
           (a_explicacion a) (a_confianza a) (reloj l) m
           = Inr (generar_id (Suc (mt_contador_hechos m)), m')"
        "mt_hechos m' = mt_hechos m @
               [(generar_id (Suc (mt_contador_hechos m)),
                 nuevo_hecho (a_predicado a) (spec_valor bnd (a_valor a)) t (Some (r_id regla))
                   (a_explicacion a) (a_confianza a) (reloj l) m)]"
        "wf_memoria m'" by blast
  have t: "a_tipo a \<in> set [ASSERT, CONCLUDE, RECOMMEND]"
    "(if a_tipo a = ASSERT then DERIVADO else CONCLUSION) = t"
    using assms(2) by (cases "a_tipo a"; simp)+
  have "ejecutar_accion reloj regla bnd a (cs, m, l) =
            Inr (cs @ [generar_id (Suc (mt_contador_hechos m))], m', Suc l)"
    unfolding ejecutar_accion_def Let_def valor_accion_spec
    using t m'(1) by (simp del: set_simps)
  then show ?thesis using m'(2,3) by blast
qed

lemma ejecutar_lista_spec:
  assumes "wf_memoria m"
  shows "\<exists>m' nuevos. ejecutar_lista reloj regla bnd as (cs, m, l) =
            Inr (cs @ map fst nuevos, m', l + length nuevos)
          \<and> mt_hechos m' = mt_hechos m @ nuevos
          \<and> map campos_hecho nuevos
              = map (campos_accion regla bnd) (filter (\<lambda>a. spec_tipo (a_tipo a) \<noteq> None) as)
          \<and> wf_memoria m'"
  using assms
proof (induction as arbitrary: cs m l)
  case Nil
  have "ejecutar_lista reloj regla bnd [] (cs, m, l) =
          Inr (cs @ map fst ([] :: (string \<times> Hecho) list), m, l + length ([] :: (string \<times> Hecho) list))"
    by simp
  then show ?case using Nil by (metis append_Nil2 filter.simps(1) list.simps(8))
next
  case (Cons a as)
  show ?case
  proof (cases "spec_tipo (a_tipo a)")
    case None
    from Cons.IH [OF Cons.prems, of cs l] obtain m' nuevos where
      r: "ejecutar_lista reloj regla bnd as (cs, m, l) = Inr (cs @ map fst nuevos, m', l + length nuevos)"
         "mt_hechos m' = mt_hechos m @ nuevos"
         "map campos_hecho nuevos
              = map (campos_accion regla bnd) (filter (\<lambda>a. spec_tipo (a_tipo a) \<noteq> None) as)"
         "wf_memoria m'" by blast
    have "ejecutar_lista reloj regla bnd (a # as) (cs, m, l) = Inr (cs @ map fst nuevos, m', l + length nuevos)"
      using ejecutar_accion_omite [OF None] r(1) by simp
    then show ?thesis using r(2,3,4) None by auto
  next
    case (Some t)
    let ?k = "generar_id (Suc (mt_contador_hechos m))"
    let ?h = "nuevo_hecho (a_predicado a) (spec_valor bnd (a_valor a)) t (Some (r_id regla))
                   (a_explicacion a) (a_confianza a) (reloj l) m"
    from ejecutar_accion_crea [OF Cons.prems Some, of reloj regla bnd cs l] obtain m1 where
      m1: "ejecutar_accion reloj regla bnd a (cs, m, l) = Inr (cs @ [?k], m1, Suc l)"
          "mt_hechos m1 = mt_hechos m @ [(?k, ?h)]" "wf_memoria m1" by blast
    from Cons.IH [OF m1(3), of "cs @ [?k]" "Suc l"] obtain m' nuevos where
      r: "ejecutar_lista reloj regla bnd as (cs @ [?k], m1, Suc l)
            = Inr ((cs @ [?k]) @ map fst nuevos, m', Suc l + length nuevos)"
         "mt_hechos m' = mt_hechos m1 @ nuevos"
         "map campos_hecho nuevos
              = map (campos_accion regla bnd) (filter (\<lambda>a. spec_tipo (a_tipo a) \<noteq> None) as)"
         "wf_memoria m'" by blast
    have 1: "ejecutar_lista reloj regla bnd (a # as) (cs, m, l)
            = Inr (cs @ map fst ((?k, ?h) # nuevos), m', l + length ((?k, ?h) # nuevos))"
      using m1(1) r(1) by simp
    have 2: "mt_hechos m' = mt_hechos m @ ((?k, ?h) # nuevos)"
      using m1(2) r(2) by simp
    have "campos_hecho (?k, ?h) = campos_accion regla bnd a"
      using Some by (simp add: campos_hecho_def campos_accion_def nuevo_hecho_def)
    then have 3: "map campos_hecho ((?k, ?h) # nuevos)
              = map (campos_accion regla bnd) (filter (\<lambda>a. spec_tipo (a_tipo a) \<noteq> None) (a # as))"
      using r(3) Some by simp
    from 1 2 3 r(4) show ?thesis by blast
  qed
qed

subsection \<open>The loop\<close>

lemma bucle_fin: "\<not> n < max_ciclos \<Longrightarrow> bucle orden reloj kb max_ciclos n razon w = Inr (n, razon, w)"
  by (subst bucle.simps) simp

lemma bucle_break:
  "n < max_ciclos \<Longrightarrow> ciclo orden reloj kb w = Inr (True, w')
     \<Longrightarrow> bucle orden reloj kb max_ciclos n razon w = Inr (n + 1, AgendaVacia, w')"
  by (subst bucle.simps) simp

lemma bucle_sigue:
  "n < max_ciclos \<Longrightarrow> ciclo orden reloj kb w = Inr (False, w') \<Longrightarrow> n' = n + 1
     \<Longrightarrow> bucle orden reloj kb max_ciclos n razon w = bucle orden reloj kb max_ciclos n' razon w'"
  by (subst bucle.simps) simp

lemma ciclo_kb_vacia:
  "ciclo id int (BaseConocimientoBotanicoTDF [])
     (MemoriaTrabajo_init, Agenda_init ESPECIFICIDAD, 0)
   = Inr (True, MemoriaTrabajo_init, Agenda_init ESPECIFICIDAD, 0)"
  by (simp add: ciclo_def BaseConocimientoBotanicoTDF_def seleccionar_proxima_regla_def
      candidatos_def Agenda_init_def)

lemma fase_match_huerfana:
  "fase_match id int MemoriaTrabajo_init (obtener_reglas kb_incoherente) (agenda_huerfana n, n)
     = Inr (agenda_huerfana (Suc n), Suc n)"
  by (simp add: kb_incoherente_def regla_huerfana_def regla_ejemplo_def post_init_def
      evaluar_regla_def activar_regla_def agenda_huerfana_def activacion_de_def)

lemma agenda_huerfana_0: "agenda_huerfana 0 = Agenda_init ESPECIFICIDAD"
  by (simp add: agenda_huerfana_def Agenda_init_def)

lemma seleccionar_huerfana:
  "seleccionar_proxima_regla (agenda_huerfana (Suc n)) = Inr (Some 0)"
proof -
  let ?ag = "agenda_huerfana (Suc n)"
  have c: "candidatos ?ag = [0 ..< Suc n]"
    unfolding candidatos_def
    by (rule filter_True [THEN trans])
       (auto simp: agenda_huerfana_def activacion_de_def simp del: upt_Suc)
  then have ne: "candidatos ?ag \<noteq> []" by (simp del: upt_Suc)
  from seleccionar_clave [OF ne] obtain i where
    i: "seleccionar_proxima_regla ?ag = Inr (Some i)" "i \<in> set (candidatos ?ag)"
       "\<forall>j \<in> set (candidatos ?ag).
           (j < i \<longrightarrow> clave (ag_estrategia ?ag) (ag_reglas_instanciadas ?ag ! j)
                      < clave (ag_estrategia ?ag) (ag_reglas_instanciadas ?ag ! i))" by blast
  have k: "clave (ag_estrategia ?ag) (ag_reglas_instanciadas ?ag ! j) = 0" if "j < Suc n" for j
    using that
    by (simp add: agenda_huerfana_def activacion_de_def regla_huerfana_def regla_ejemplo_def
        post_init_def del: upt_Suc)
  have "i = 0"
  proof (rule ccontr)
    assume "i \<noteq> 0"
    then have "0 < i" by simp
    moreover have "0 \<in> set (candidatos ?ag)" unfolding c by (simp del: upt_Suc)
    ultimately have "clave (ag_estrategia ?ag) (ag_reglas_instanciadas ?ag ! 0)
                      < clave (ag_estrategia ?ag) (ag_reglas_instanciadas ?ag ! i)"
      using i(3) by blast
    moreover have il: "i < Suc n" using i(2) unfolding c by (simp del: upt_Suc)
    moreover have "clave (ag_estrategia ?ag) (ag_reglas_instanciadas ?ag ! 0) = 0"
      by (rule k) simp
    moreover have "clave (ag_estrategia ?ag) (ag_reglas_instanciadas ?ag ! i) = 0"
      by (rule k [OF il])
    ultimately show False by simp
  qed
  then show ?thesis using i(1) by simp
qed

lemma ciclo_huerfana:
  "ciclo id int kb_incoherente (MemoriaTrabajo_init, agenda_huerfana n, n)
     = Inr (False, MemoriaTrabajo_init, agenda_huerfana (Suc n), Suc n)"
  using fase_match_huerfana [of n] seleccionar_huerfana [of n]
  by (simp add: ciclo_def) (simp add: kb_incoherente_def)

subsection \<open>A rule without conditions in the loop\<close>

lemma filter_update_length:
  assumes "i < length xs" and "P y = P (xs ! i)"
  shows "length (filter P (xs[i := y])) = length (filter P xs)"
  using assms
proof (induction xs arbitrary: i)
  case Nil
  then show ?case by simp
next
  case (Cons x xs)
  then show ?case by (cases i) auto
qed

lemma activaciones_marcar:
  assumes "i < length (ag_reglas_instanciadas ag)"
  shows "activaciones_de regla (marcar_como_ejecutada i ag) = activaciones_de regla ag"
  unfolding activaciones_de_def marcar_como_ejecutada_def
  using filter_update_length [OF assms,
      of "\<lambda>a. ri_regla_id a = r_id regla \<and> ri_bindings a = Map.empty"
         "(ag_reglas_instanciadas ag ! i)\<lparr>ri_ya_ejecutada := True\<rparr>"]
  by simp

lemma ejecutar_acciones_wf:
  assumes "wf_memoria m"
  shows "\<exists>ids m' l'. ejecutar_acciones reloj regla bnd (m, l) = Inr (ids, m', l') \<and> wf_memoria m'"
  using ejecutar_lista_spec [OF assms, of reloj regla bnd "r_acciones regla" "[]" l]
  unfolding ejecutar_acciones_def by auto

lemma ciclo_con_regla:
  assumes "wf_memoria m" and "\<And>xs. set (orden xs) = set xs"
    and "regla \<in> set (obtener_reglas kb)" and "r_condiciones regla = []"
  shows "\<exists>m' ag' l'. ciclo orden reloj kb (m, ag, l) = Inr (False, m', ag', l')
           \<and> wf_memoria m' \<and> activaciones_de regla ag < activaciones_de regla ag'"
proof -
  from fase_match_append [OF assms(1,2), of reloj "obtener_reglas kb" ag l] assms(3,4)
  obtain nuevos k where
    f: "fase_match orden reloj m (obtener_reglas kb) (ag, l) =
          Inr (ag\<lparr>ag_reglas_instanciadas := ag_reglas_instanciadas ag @ nuevos\<rparr>, l + length nuevos)"
    and u: "\<forall>x \<in> set nuevos. \<not> ri_ya_ejecutada x"
    and a: "activacion_de regla Map.empty (reloj k) \<in> set nuevos" by blast
  let ?ag = "ag\<lparr>ag_reglas_instanciadas := ag_reglas_instanciadas ag @ nuevos\<rparr>"
  let ?P = "\<lambda>a. ri_regla_id a = r_id regla \<and> ri_bindings a = Map.empty"
  have "?P (activacion_de regla Map.empty (reloj k))" by (simp add: activacion_de_def)
  with a have "filter ?P nuevos \<noteq> []" by (auto simp: filter_empty_conv)
  then have c: "activaciones_de regla ag < activaciones_de regla ?ag"
    by (simp add: activaciones_de_def)
  obtain j where j: "j < length nuevos" "nuevos ! j = activacion_de regla Map.empty (reloj k)"
    using a by (auto simp: in_set_conv_nth)
  have "length (ag_reglas_instanciadas ag) + j \<in> set (candidatos ?ag)"
    using j by (simp add: candidatos_set nth_append activacion_de_def)
  then have ne: "candidatos ?ag \<noteq> []" by auto
  from seleccionar_clave [OF ne] obtain i where
    i: "seleccionar_proxima_regla ?ag = Inr (Some i)" "i \<in> set (candidatos ?ag)" by blast
  then have il: "i < length (ag_reglas_instanciadas ?ag)" by (simp add: candidatos_set)
  show ?thesis
  proof (cases "obtener_regla_por_id kb (ri_regla_id (ag_reglas_instanciadas ?ag ! i))")
    case None
    then have "ciclo orden reloj kb (m, ag, l) = Inr (False, m, ?ag, l + length nuevos)"
      using f i(1) by (simp add: ciclo_def)
    then show ?thesis using assms(1) c by blast
  next
    case (Some r)
    from ejecutar_acciones_wf [OF assms(1), of reloj r
        "ri_bindings (ag_reglas_instanciadas ?ag ! i)" "l + length nuevos"]
    obtain ids m' l' where
      e: "ejecutar_acciones reloj r (ri_bindings (ag_reglas_instanciadas ?ag ! i))
            (m, l + length nuevos) = Inr (ids, m', l')" "wf_memoria m'" by blast
    have "ciclo orden reloj kb (m, ag, l) = Inr (False, m', marcar_como_ejecutada i ?ag, l')"
      using f i(1) Some e(1) by (simp add: ciclo_def)
    moreover have "activaciones_de regla (marcar_como_ejecutada i ?ag) = activaciones_de regla ?ag"
      by (rule activaciones_marcar [OF il])
    ultimately show ?thesis using e(2) c by (metis)
  qed
qed

lemma bucle_con_regla:
  assumes "\<And>xs. set (orden xs) = set xs"
    and "regla \<in> set (obtener_reglas kb)" and "r_condiciones regla = []"
  shows "wf_memoria m \<Longrightarrow> k = nat (max_ciclos - n) \<Longrightarrow>
         \<exists>m' ag' l'. bucle orden reloj kb max_ciclos n razon (m, ag, l)
                        = Inr (max n max_ciclos, razon, m', ag', l')
           \<and> wf_memoria m' \<and> activaciones_de regla ag + k \<le> activaciones_de regla ag'"
proof (induction k arbitrary: n m ag l)
  case 0
  then have "\<not> n < max_ciclos" by simp
  then have "bucle orden reloj kb max_ciclos n razon (m, ag, l) = Inr (max n max_ciclos, razon, m, ag, l)"
    using bucle_fin [of n max_ciclos orden reloj kb razon "(m, ag, l)"] by (simp add: max_def)
  then show ?case using "0.prems"(1) by auto
next
  case (Suc k)
  then have lt: "n < max_ciclos" by simp
  from ciclo_con_regla [OF Suc.prems(1) assms, of reloj ag l] obtain m1 ag1 l1 where
    c: "ciclo orden reloj kb (m, ag, l) = Inr (False, m1, ag1, l1)" "wf_memoria m1"
       "activaciones_de regla ag < activaciones_de regla ag1" by blast
  have k: "k = nat (max_ciclos - (n + 1))" using Suc.prems(2) by simp
  from Suc.IH [OF c(2) k, of ag1 l1] obtain m' ag' l' where
    r: "bucle orden reloj kb max_ciclos (n + 1) razon (m1, ag1, l1)
          = Inr (max (n + 1) max_ciclos, razon, m', ag', l')" "wf_memoria m'"
       "activaciones_de regla ag1 + k \<le> activaciones_de regla ag'" by blast
  have "bucle orden reloj kb max_ciclos n razon (m, ag, l)
          = Inr (max n max_ciclos, razon, m', ag', l')"
    using bucle_sigue [OF lt c(1) refl, of razon] r(1) lt by (simp add: max_def)
  then show ?case using r(2,3) c(3) by auto
qed

lemma inferir_con_regla:
  assumes "wf_memoria (mo_memoria motor)" and "\<And>xs. set (orden xs) = set xs"
    and "regla \<in> set (obtener_reglas kb)" and "r_condiciones regla = []"
  shows "\<exists>motor' l'. inferir orden reloj kb (motor, l) = Inr (motor', l')
           \<and> mo_ciclos_ejecutados motor' = max 0 (mo_max_ciclos motor)
           \<and> activaciones_de regla (mo_agenda motor) + nat (mo_max_ciclos motor)
               \<le> activaciones_de regla (mo_agenda motor')"
proof -
  from bucle_con_regla [OF assms(2,3,4) assms(1) refl, where max_ciclos = "mo_max_ciclos motor"
      and n = 0 and reloj = reloj and razon = "mo_razon_terminacion motor"
      and ag = "mo_agenda motor" and l = l]
  obtain m' ag' l' where
    b: "bucle orden reloj kb (mo_max_ciclos motor) 0 (mo_razon_terminacion motor)
          (mo_memoria motor, mo_agenda motor, l)
        = Inr (max 0 (mo_max_ciclos motor), mo_razon_terminacion motor, m', ag', l')"
       "activaciones_de regla (mo_agenda motor) + nat (mo_max_ciclos motor - 0)
          \<le> activaciones_de regla ag'" by blast
  show ?thesis using b by (simp add: inferir_def)
qed

section \<open>The claims\<close>

subsection \<open>Working memory\<close>

text \<open>
  C7. Every call of \<open>assert_hecho\<close> in a session succeeds, adds one new entry to the
  store without touching the entries already there, and so raises the total count by one
  per call; over any sequence of calls, whatever the categories of the facts, the ids
  assigned are pairwise distinct, differ from every id already in the store, and carry
  strictly increasing sequence numbers in creation order.
\<close>

theorem assert_hecho_monotonic:
  assumes "wf_memoria m"
  shows "\<exists>ids m' nuevos. llamadas_assert_hecho cs m = Inr (ids, m')
           \<and> mt_hechos m' = mt_hechos m @ nuevos \<and> map fst nuevos = ids
           \<and> length (mt_hechos m') = length (mt_hechos m) + length cs
           \<and> length ids = length cs \<and> distinct ids
           \<and> set ids \<inter> fst ` set (mt_hechos m) = {}
           \<and> sorted_wrt (\<lambda>a b. numero_id a < numero_id b) (map fst (mt_hechos m) @ ids)
           \<and> wf_memoria m'"
proof -
  let ?c = "mt_contador_hechos m"
  let ?ids = "map generar_id [Suc ?c ..< Suc ?c + length cs]"
  from llamadas_ids [OF assms, of cs] obtain m' nuevos where
    r: "llamadas_assert_hecho cs m = Inr (?ids, m')" "mt_hechos m' = mt_hechos m @ nuevos"
       "map fst nuevos = ?ids" "wf_memoria m'" by blast
  have old: "map fst (mt_hechos m) = map generar_id [1 ..< Suc ?c]"
    using assms unfolding wf_memoria_def by blast
  have "[1 ..< Suc ?c + length cs] = [1 ..< Suc ?c] @ [Suc ?c ..< Suc ?c + length cs]"
    by (rule upt_add_eq_append) simp
  then have all: "map fst (mt_hechos m) @ ?ids = map generar_id [1 ..< Suc ?c + length cs]"
    unfolding old by (simp only: map_append)
  have inj: "inj_on generar_id A" for A by (rule inj_onI) (rule generar_id_inj)
  have d: "distinct (map fst (mt_hechos m) @ ?ids)"
    unfolding all by (simp add: distinct_map inj del: upt_Suc)
  have s: "sorted_wrt (\<lambda>a b. numero_id a < numero_id b) (map fst (mt_hechos m) @ ?ids)"
    unfolding all by (simp add: sorted_wrt_map numero_id_generar_id del: upt_Suc)
  have l: "length nuevos = length cs" using r(3) by (metis length_map length_upt add_diff_cancel_left')
  have "distinct ?ids" "set ?ids \<inter> fst ` set (mt_hechos m) = {}"
    using d by (auto simp del: upt_Suc)
  then show ?thesis using r s l by (auto simp del: upt_Suc)
qed

theorem assert_hecho_monotonic_witness:
  "wf_memoria MemoriaTrabajo_init
   \<and> llamadas_assert_hecho llamadas_empate MemoriaTrabajo_init
        = Inr ([''F0001'', ''F0002''], memoria_empate)
   \<and> length (mt_hechos memoria_empate) = length (mt_hechos MemoriaTrabajo_init) + 2
   \<and> numero_id ''F0001'' < numero_id ''F0002''"
proof -
  from assert_hecho_monotonic [OF wf_init, of llamadas_empate] obtain ids m' nuevos where
    r: "llamadas_assert_hecho llamadas_empate MemoriaTrabajo_init = Inr (ids, m')"
       "length (mt_hechos m') = length (mt_hechos MemoriaTrabajo_init) + length llamadas_empate"
       "sorted_wrt (\<lambda>a b. numero_id a < numero_id b) (map fst (mt_hechos MemoriaTrabajo_init) @ ids)"
    by blast
  from r(1) have e: "ids = [''F0001'', ''F0002'']" "m' = memoria_empate"
    by (simp_all add: llamadas_empate_ok)
  have "length llamadas_empate = 2" by (simp add: llamadas_empate_def)
  with r(2) have "length (mt_hechos memoria_empate) = length (mt_hechos MemoriaTrabajo_init) + 2"
    unfolding e by simp
  moreover have "numero_id ''F0001'' < numero_id ''F0002''"
    using r(3) unfolding e by (simp add: MemoriaTrabajo_init_def)
  ultimately show ?thesis using wf_init llamadas_empate_ok by simp
qed

text \<open>
  C10. \<open>assert_hecho\<close> does not validate the confidence: for every value \<open>c\<close>, inside or
  outside the interval from 0 to 1, the call succeeds in a session and the fact stored
  under the returned id has confidence \<open>c\<close>.
\<close>

theorem assert_hecho_confianza:
  assumes "wf_memoria m"
  shows "\<exists>k m' h. assert_hecho p v t og j c ts m = Inr (k, m')
           \<and> map_of (mt_hechos m') k = Some h \<and> h_confianza h = c
           \<and> h_predicado h = p \<and> h_valor h = v"
proof -
  let ?k = "generar_id (Suc (mt_contador_hechos m))"
  from assert_hecho_wf [OF assms, of p v t og j c ts] obtain m' where
    m': "assert_hecho p v t og j c ts m = Inr (?k, m')"
        "mt_hechos m' = mt_hechos m @ [(?k, nuevo_hecho p v t og j c ts m)]" by blast
  have "map_of (mt_hechos m) ?k = None"
    using wf_fresh [OF assms] by (simp add: map_of_eq_None_iff)
  then have "map_of (mt_hechos m') ?k = Some (nuevo_hecho p v t og j c ts m)"
    unfolding m'(2) by (simp add: map_add_def)
  then show ?thesis using m'(1) by (simp add: nuevo_hecho_def)
qed

theorem assert_hecho_confianza_witness:
  "wf_memoria MemoriaTrabajo_init
   \<and> (\<exists>k m' h. assert_hecho ''p'' (VInt 1) INICIAL None [] (- 3) 0 MemoriaTrabajo_init = Inr (k, m')
          \<and> map_of (mt_hechos m') k = Some h \<and> h_confianza h = - 3)"
  using assert_hecho_confianza [OF wf_init, of "''p''" "VInt 1" INICIAL None "[]" "- 3" 0] wf_init
  by blast

text \<open>
  C2, as the code has it. In a session, for every iteration order of the id set:
  \<open>obtener_hecho\<close> returns \<open>None\<close> when the store has no fact of predicate \<open>p\<close>, and
  otherwise a fact of predicate \<open>p\<close> whose timestamp is maximal among the facts of \<open>p\<close>.
  Which of several facts of maximal timestamp is returned is left to the iteration
  order of the set.
\<close>

theorem obtener_hecho_max_timestamp:
  assumes "wf_memoria m" and "\<And>xs. set (orden xs) = set xs"
  shows "(hechos_de m p = [] \<longrightarrow> obtener_hecho orden m p = Inr None) \<and>
         (hechos_de m p \<noteq> [] \<longrightarrow>
            (\<exists>h. obtener_hecho orden m p = Inr (Some h) \<and> h \<in> set (hechos_de m p)
                \<and> (\<forall>h' \<in> set (hechos_de m p). h_timestamp h' \<le> h_timestamp h)))"
  using obtener_hecho_wf [OF assms] .

theorem obtener_hecho_max_timestamp_witness:
  "wf_memoria memoria_empate \<and> (\<forall>xs :: string list. set (rev xs) = set xs)
   \<and> hechos_de memoria_empate ''p'' = [hecho_a, hecho_b]
   \<and> (\<exists>h. obtener_hecho rev memoria_empate ''p'' = Inr (Some h)
          \<and> h_timestamp hecho_a \<le> h_timestamp h \<and> h_timestamp hecho_b \<le> h_timestamp h)"
proof -
  have o: "set (rev xs) = set xs" for xs :: "string list" by simp
  have hs: "hechos_de memoria_empate ''p'' = [hecho_a, hecho_b]"
    by (simp add: hechos_de_def memoria_empate_def hecho_a_def hecho_b_def)
  from obtener_hecho_max_timestamp [OF wf_empate o, of "''p''"] hs
  have "\<exists>h. obtener_hecho rev memoria_empate ''p'' = Inr (Some h)
          \<and> h_timestamp hecho_a \<le> h_timestamp h \<and> h_timestamp hecho_b \<le> h_timestamp h"
    by auto
  then show ?thesis using wf_empate hs by simp
qed

text \<open>
  C2, as stated, fails: two facts of predicate \<open>p\<close> share the maximal timestamp, and with
  the set iterated in insertion order \<open>obtener_hecho\<close> returns the one of the lower id.
\<close>

theorem obtener_hecho_empate:
  "obtener_hecho id memoria_empate ''p'' = Inr (Some hecho_a)
   \<and> map_of (mt_hechos memoria_empate) ''F0002'' = Some hecho_b
   \<and> h_predicado hecho_b = ''p''
   \<and> h_timestamp hecho_b = h_timestamp hecho_a
   \<and> h_id hecho_a = generar_id 1 \<and> h_id hecho_b = generar_id 2"
  by (simp add: obtener_hecho_def memoria_empate_def dict_get_def py_max_def hecho_a_def hecho_b_def
      generar_id_1 generar_id_2 numeral_2_eq_2)

subsection \<open>The agenda\<close>

text \<open>
  C5. \<open>seleccionar_proxima_regla\<close> never fails; it returns \<open>None\<close> exactly when every
  activation is executed; otherwise it returns an unexecuted activation whose key under the
  configured strategy is greatest among the unexecuted ones, and every unexecuted
  activation inserted before it has a strictly smaller key (the first inserted of the
  maxima wins). The result is a function of the activations and the strategy alone.
\<close>

theorem seleccionar_proxima_regla_max:
  "(seleccionar_proxima_regla ag = Inr None \<longleftrightarrow>
      (\<forall>i < length (ag_reglas_instanciadas ag). ri_ya_ejecutada (ag_reglas_instanciadas ag ! i)))
   \<and> (\<exists>r. seleccionar_proxima_regla ag = Inr r)
   \<and> (\<forall>i. seleccionar_proxima_regla ag = Inr (Some i) \<longrightarrow>
         i < length (ag_reglas_instanciadas ag)
         \<and> \<not> ri_ya_ejecutada (ag_reglas_instanciadas ag ! i)
         \<and> (\<forall>j < length (ag_reglas_instanciadas ag).
               \<not> ri_ya_ejecutada (ag_reglas_instanciadas ag ! j) \<longrightarrow>
                 clave (ag_estrategia ag) (ag_reglas_instanciadas ag ! j)
                   \<le> clave (ag_estrategia ag) (ag_reglas_instanciadas ag ! i)
                 \<and> (j < i \<longrightarrow> clave (ag_estrategia ag) (ag_reglas_instanciadas ag ! j)
                               < clave (ag_estrategia ag) (ag_reglas_instanciadas ag ! i))))
   \<and> (\<forall>ag'. ag_reglas_instanciadas ag' = ag_reglas_instanciadas ag
            \<and> ag_estrategia ag' = ag_estrategia ag
         \<longrightarrow> seleccionar_proxima_regla ag' = seleccionar_proxima_regla ag)"
proof (intro conjI)
  show "seleccionar_proxima_regla ag = Inr None \<longleftrightarrow>
      (\<forall>i < length (ag_reglas_instanciadas ag). ri_ya_ejecutada (ag_reglas_instanciadas ag ! i))"
  proof (cases "candidatos ag = []")
    case True
    have "set (candidatos ag) = {}" using True by simp
    then show ?thesis using seleccionar_vacia [OF True] unfolding candidatos_set by auto
  next
    case False
    from seleccionar_clave [OF False] obtain i where
      i: "seleccionar_proxima_regla ag = Inr (Some i)" "i \<in> set (candidatos ag)" by blast
    then show ?thesis unfolding candidatos_set by auto
  qed
next
  show "\<exists>r. seleccionar_proxima_regla ag = Inr r"
    using seleccionar_casos [of ag] by auto
next
  show "\<forall>i. seleccionar_proxima_regla ag = Inr (Some i) \<longrightarrow>
         i < length (ag_reglas_instanciadas ag)
         \<and> \<not> ri_ya_ejecutada (ag_reglas_instanciadas ag ! i)
         \<and> (\<forall>j < length (ag_reglas_instanciadas ag).
               \<not> ri_ya_ejecutada (ag_reglas_instanciadas ag ! j) \<longrightarrow>
                 clave (ag_estrategia ag) (ag_reglas_instanciadas ag ! j)
                   \<le> clave (ag_estrategia ag) (ag_reglas_instanciadas ag ! i)
                 \<and> (j < i \<longrightarrow> clave (ag_estrategia ag) (ag_reglas_instanciadas ag ! j)
                               < clave (ag_estrategia ag) (ag_reglas_instanciadas ag ! i)))"
  proof (intro allI impI)
    fix i assume a: "seleccionar_proxima_regla ag = Inr (Some i)"
    then have ne: "candidatos ag \<noteq> []" using seleccionar_vacia [of ag] by auto
    from seleccionar_clave [OF ne] a have
      "i \<in> set (candidatos ag)"
      "\<forall>j \<in> set (candidatos ag).
          clave (ag_estrategia ag) (ag_reglas_instanciadas ag ! j)
            \<le> clave (ag_estrategia ag) (ag_reglas_instanciadas ag ! i)
          \<and> (j < i \<longrightarrow> clave (ag_estrategia ag) (ag_reglas_instanciadas ag ! j)
                        < clave (ag_estrategia ag) (ag_reglas_instanciadas ag ! i))"
      by auto
    then show "i < length (ag_reglas_instanciadas ag)
         \<and> \<not> ri_ya_ejecutada (ag_reglas_instanciadas ag ! i)
         \<and> (\<forall>j < length (ag_reglas_instanciadas ag).
               \<not> ri_ya_ejecutada (ag_reglas_instanciadas ag ! j) \<longrightarrow>
                 clave (ag_estrategia ag) (ag_reglas_instanciadas ag ! j)
                   \<le> clave (ag_estrategia ag) (ag_reglas_instanciadas ag ! i)
                 \<and> (j < i \<longrightarrow> clave (ag_estrategia ag) (ag_reglas_instanciadas ag ! j)
                               < clave (ag_estrategia ag) (ag_reglas_instanciadas ag ! i)))"
      unfolding candidatos_set by simp
  qed
next
  show "\<forall>ag'. ag_reglas_instanciadas ag' = ag_reglas_instanciadas ag
            \<and> ag_estrategia ag' = ag_estrategia ag
         \<longrightarrow> seleccionar_proxima_regla ag' = seleccionar_proxima_regla ag"
  proof (intro allI impI)
    fix ag' :: Agenda
    assume a: "ag_reglas_instanciadas ag' = ag_reglas_instanciadas ag
            \<and> ag_estrategia ag' = ag_estrategia ag"
    show "seleccionar_proxima_regla ag' = seleccionar_proxima_regla ag"
      unfolding seleccionar_proxima_regla_def candidatos_def
      by (simp only: a [THEN conjunct1] a [THEN conjunct2])
  qed
qed

theorem seleccionar_proxima_regla_max_witness:
  "seleccionar_proxima_regla (agenda_ejemplo ESPECIFICIDAD) = Inr (Some 1)
   \<and> seleccionar_proxima_regla (agenda_ejemplo RECENCIA) = Inr (Some 1)
   \<and> seleccionar_proxima_regla (agenda_ejemplo PRIORIDAD_EXPLICITA) = Inr (Some 1)
   \<and> clave PRIORIDAD_EXPLICITA (ag_reglas_instanciadas (agenda_ejemplo PRIORIDAD_EXPLICITA) ! 0)
       < clave PRIORIDAD_EXPLICITA (ag_reglas_instanciadas (agenda_ejemplo PRIORIDAD_EXPLICITA) ! 1)
   \<and> clave PRIORIDAD_EXPLICITA (ag_reglas_instanciadas (agenda_ejemplo PRIORIDAD_EXPLICITA) ! 2)
       \<le> clave PRIORIDAD_EXPLICITA (ag_reglas_instanciadas (agenda_ejemplo PRIORIDAD_EXPLICITA) ! 1)"
proof -
  have e: "seleccionar_proxima_regla (agenda_ejemplo s) = Inr (Some 1)" for s
    by (cases s)
      (simp_all add: seleccionar_proxima_regla_def candidatos_def agenda_ejemplo_def
        activacion_ejemplo_def py_max_def)
  let ?ag = "agenda_ejemplo PRIORIDAD_EXPLICITA"
  have l: "length (ag_reglas_instanciadas ?ag) = 4"
    and n0: "\<not> ri_ya_ejecutada (ag_reglas_instanciadas ?ag ! 0)"
    and n2: "\<not> ri_ya_ejecutada (ag_reglas_instanciadas ?ag ! 2)"
    and s: "ag_estrategia ?ag = PRIORIDAD_EXPLICITA"
    by (simp_all add: agenda_ejemplo_def activacion_ejemplo_def)
  from seleccionar_proxima_regla_max [of ?ag] e [of PRIORIDAD_EXPLICITA]
  have m: "\<forall>j < length (ag_reglas_instanciadas ?ag).
             \<not> ri_ya_ejecutada (ag_reglas_instanciadas ?ag ! j) \<longrightarrow>
               clave (ag_estrategia ?ag) (ag_reglas_instanciadas ?ag ! j)
                 \<le> clave (ag_estrategia ?ag) (ag_reglas_instanciadas ?ag ! 1)
               \<and> (j < 1 \<longrightarrow> clave (ag_estrategia ?ag) (ag_reglas_instanciadas ?ag ! j)
                             < clave (ag_estrategia ?ag) (ag_reglas_instanciadas ?ag ! 1))"
    by blast
  from m [rule_format, of 0] m [rule_format, of 2] l n0 n2 s
  show ?thesis using e by simp
qed

subsection \<open>Conditions and actions\<close>

text \<open>
  C8, as the code has it. For every condition, memory and bindings, when the lookup of the
  condition's predicate returns normally: if the condition value is a list and a fact
  exists, \<open>EN\<close> and \<open>NO_EN\<close> return opposite truth values, \<open>EN\<close> being membership of the
  fact's value in the list; if the condition value is not a list (a tuple or a string
  included), both return false and leave the bindings as they are; and so they do when no
  fact exists.
\<close>

theorem en_no_en:
  assumes "obtener_hecho orden m (c_predicado c) = Inr hecho"
  shows "(\<forall>xs h. c_valor c = VList xs \<and> hecho = Some h \<longrightarrow>
            (\<exists>r b b'. evaluar_condicion orden m (c\<lparr>c_operador := EN\<rparr>) bnd = Inr (r, b)
                \<and> evaluar_condicion orden m (c\<lparr>c_operador := NO_EN\<rparr>) bnd = Inr (\<not> r, b')
                \<and> r = py_in (h_valor h) xs))
       \<and> ((\<forall>xs. c_valor c \<noteq> VList xs) \<longrightarrow>
             evaluar_condicion orden m (c\<lparr>c_operador := EN\<rparr>) bnd = Inr (False, bnd)
           \<and> evaluar_condicion orden m (c\<lparr>c_operador := NO_EN\<rparr>) bnd = Inr (False, bnd))
       \<and> (hecho = None \<longrightarrow>
             evaluar_condicion orden m (c\<lparr>c_operador := EN\<rparr>) bnd = Inr (False, bnd)
           \<and> evaluar_condicion orden m (c\<lparr>c_operador := NO_EN\<rparr>) bnd = Inr (False, bnd))"
proof (intro conjI allI impI)
  fix xs h
  assume a: "c_valor c = VList xs \<and> hecho = Some h"
  show "\<exists>r b b'. evaluar_condicion orden m (c\<lparr>c_operador := EN\<rparr>) bnd = Inr (r, b)
                \<and> evaluar_condicion orden m (c\<lparr>c_operador := NO_EN\<rparr>) bnd = Inr (\<not> r, b')
                \<and> r = py_in (h_valor h) xs"
    using assms a by (simp add: evaluar_condicion_def Let_def)
next
  assume a: "\<forall>xs. c_valor c \<noteq> VList xs"
  then have 1: "(case c_valor c of VList xs \<Rightarrow> f xs | _ \<Rightarrow> False) = False" for f
    by (cases "c_valor c") auto
  show "evaluar_condicion orden m (c\<lparr>c_operador := EN\<rparr>) bnd = Inr (False, bnd)"
    using assms 1 by (cases hecho) (simp_all add: evaluar_condicion_def Let_def split: option.splits)
  show "evaluar_condicion orden m (c\<lparr>c_operador := NO_EN\<rparr>) bnd = Inr (False, bnd)"
    using assms 1 by (cases hecho) (simp_all add: evaluar_condicion_def Let_def split: option.splits)
next
  assume a: "hecho = None"
  show "evaluar_condicion orden m (c\<lparr>c_operador := EN\<rparr>) bnd = Inr (False, bnd)"
    using assms a by (simp add: evaluar_condicion_def)
  show "evaluar_condicion orden m (c\<lparr>c_operador := NO_EN\<rparr>) bnd = Inr (False, bnd)"
    using assms a by (simp add: evaluar_condicion_def)
qed

theorem en_no_en_witness:
  "obtener_hecho id memoria_empate (c_predicado (cond_ejemplo EN (VList [VInt 1, VInt 5])))
     = Inr (Some hecho_a)
   \<and> (\<exists>r b b'.
         evaluar_condicion id memoria_empate (cond_ejemplo EN (VList [VInt 1, VInt 5])) Map.empty
           = Inr (r, b)
       \<and> evaluar_condicion id memoria_empate (cond_ejemplo NO_EN (VList [VInt 1, VInt 5])) Map.empty
           = Inr (\<not> r, b')
       \<and> r = py_in (h_valor hecho_a) [VInt 1, VInt 5])"
proof -
  let ?c = "cond_ejemplo EN (VList [VInt 1, VInt 5])"
  have h: "obtener_hecho id memoria_empate (c_predicado ?c) = Inr (Some hecho_a)"
    by (simp add: cond_ejemplo_def obtener_insercion_empate)
  have c: "?c\<lparr>c_operador := EN\<rparr> = ?c"
    "?c\<lparr>c_operador := NO_EN\<rparr> = cond_ejemplo NO_EN (VList [VInt 1, VInt 5])"
    "c_valor ?c = VList [VInt 1, VInt 5]"
    by (simp_all add: cond_ejemplo_def)
  from en_no_en [OF h, of Map.empty] c
  have "\<exists>r b b'.
         evaluar_condicion id memoria_empate ?c Map.empty = Inr (r, b)
       \<and> evaluar_condicion id memoria_empate (cond_ejemplo NO_EN (VList [VInt 1, VInt 5])) Map.empty
           = Inr (\<not> r, b')
       \<and> r = py_in (h_valor hecho_a) [VInt 1, VInt 5]"
    by simp
  then show ?thesis using h by simp
qed

text \<open>
  C8, as stated, fails: the condition value is the tuple \<open>(1, 5)\<close>, a sequence, the fact
  \<open>p = 1\<close> exists and its value is a member of the tuple, and both \<open>EN\<close> and \<open>NO_EN\<close>
  evaluate to false.
\<close>

theorem tupla_en_no_en_falsos:
  "obtener_hecho id memoria_empate (c_predicado (cond_ejemplo EN (VTuple [VInt 1, VInt 5])))
     = Inr (Some hecho_a)
   \<and> h_valor hecho_a = VInt 1
   \<and> evaluar_condicion id memoria_empate (cond_ejemplo EN (VTuple [VInt 1, VInt 5])) Map.empty
       = Inr (False, Map.empty)
   \<and> evaluar_condicion id memoria_empate (cond_ejemplo NO_EN (VTuple [VInt 1, VInt 5])) Map.empty
       = Inr (False, Map.empty)"
  by (simp add: evaluar_condicion_def obtener_insercion_empate cond_ejemplo_def Let_def hecho_a_def)

text \<open>
  C1, as the code has it. A condition whose operator is one of \<open>MENOR\<close>, \<open>MENOR_IGUAL\<close>,
  \<open>MAYOR\<close>, \<open>MAYOR_IGUAL\<close>, \<open>CONTIENE\<close>, \<open>COINCIDE_PATRON\<close> raises nothing of its own:
  whenever the lookup of its predicate returns, with or without a fact, the condition
  evaluates to false and the bindings stay as they are. An action of kind \<open>RETRACT\<close>,
  \<open>MODIFY\<close>, \<open>CALL_FUNCTION\<close>, \<open>SET_VARIABLE\<close> or \<open>INCREMENT\<close> is skipped: no error, no
  fact, the memory unchanged; a rule with only such actions returns the empty list of ids.
\<close>

theorem operadores_sin_implementar:
  "(c_operador c \<in> set [MENOR, MENOR_IGUAL, MAYOR, MAYOR_IGUAL, CONTIENE, COINCIDE_PATRON] \<longrightarrow>
      evaluar_condicion orden m c bnd =
        (case obtener_hecho orden m (c_predicado c) of
           Inl e \<Rightarrow> Inl e | Inr hecho \<Rightarrow> Inr (False, bnd)))
   \<and> (a_tipo a \<in> set [RETRACT, MODIFY, CALL_FUNCTION, SET_VARIABLE, INCREMENT] \<longrightarrow>
        ejecutar_accion reloj regla bnd a st = Inr st)
   \<and> ((\<forall>x \<in> set (r_acciones regla).
          a_tipo x \<in> set [RETRACT, MODIFY, CALL_FUNCTION, SET_VARIABLE, INCREMENT]) \<longrightarrow>
        ejecutar_acciones reloj regla bnd (m, l) = Inr ([], m, l))"
proof (intro conjI impI)
  assume "c_operador c \<in> set [MENOR, MENOR_IGUAL, MAYOR, MAYOR_IGUAL, CONTIENE, COINCIDE_PATRON]"
  then show "evaluar_condicion orden m c bnd =
        (case obtener_hecho orden m (c_predicado c) of
           Inl e \<Rightarrow> Inl e | Inr hecho \<Rightarrow> Inr (False, bnd))"
    by (auto simp: evaluar_condicion_def Let_def split: sum.splits option.splits)
next
  assume "a_tipo a \<in> set [RETRACT, MODIFY, CALL_FUNCTION, SET_VARIABLE, INCREMENT]"
  then show "ejecutar_accion reloj regla bnd a st = Inr st"
    by (cases st) (auto simp: ejecutar_accion_def Let_def)
next
  assume a: "\<forall>x \<in> set (r_acciones regla).
          a_tipo x \<in> set [RETRACT, MODIFY, CALL_FUNCTION, SET_VARIABLE, INCREMENT]"
  have "ejecutar_lista reloj regla bnd as s = Inr s"
    if "\<forall>x \<in> set as. a_tipo x \<in> set [RETRACT, MODIFY, CALL_FUNCTION, SET_VARIABLE, INCREMENT]"
    for as s
    using that
  proof (induction as)
    case Nil
    show ?case by simp
  next
    case (Cons x as)
    then have "ejecutar_accion reloj regla bnd x s = Inr s"
      by (cases s) (auto simp: ejecutar_accion_def Let_def)
    then show ?case using Cons by simp
  qed
  from this [OF a] show "ejecutar_acciones reloj regla bnd (m, l) = Inr ([], m, l)"
    by (simp add: ejecutar_acciones_def)
qed

theorem operadores_sin_implementar_witness:
  "CONTIENE \<in> set [MENOR, MENOR_IGUAL, MAYOR, MAYOR_IGUAL, CONTIENE, COINCIDE_PATRON]
   \<and> INCREMENT \<in> set [RETRACT, MODIFY, CALL_FUNCTION, SET_VARIABLE, INCREMENT]
   \<and> evaluar_condicion id memoria_empate (cond_ejemplo CONTIENE (VInt 1)) Map.empty
       = Inr (False, Map.empty)
   \<and> ejecutar_accion int (regla_ejemplo [] []) Map.empty (accion_ejemplo INCREMENT (VInt 1))
       ([], memoria_empate, 0) = Inr ([], memoria_empate, 0)"
proof -
  let ?c = "cond_ejemplo CONTIENE (VInt 1)" and ?a = "accion_ejemplo INCREMENT (VInt 1)"
  have c: "c_operador ?c \<in> set [MENOR, MENOR_IGUAL, MAYOR, MAYOR_IGUAL, CONTIENE, COINCIDE_PATRON]"
    and a: "a_tipo ?a \<in> set [RETRACT, MODIFY, CALL_FUNCTION, SET_VARIABLE, INCREMENT]"
    and h: "obtener_hecho id memoria_empate (c_predicado ?c) = Inr (Some hecho_a)"
    by (simp_all add: cond_ejemplo_def accion_ejemplo_def obtener_insercion_empate)
  note t = operadores_sin_implementar
    [of ?c id memoria_empate Map.empty ?a int "regla_ejemplo [] []" "([], memoria_empate, 0)"]
  from t [THEN conjunct1, THEN mp, OF c] h
  have 1: "evaluar_condicion id memoria_empate ?c Map.empty = Inr (False, Map.empty)"
    by simp
  from t [THEN conjunct2, THEN conjunct1, THEN mp, OF a]
  have 2: "ejecutar_accion int (regla_ejemplo [] []) Map.empty ?a ([], memoria_empate, 0)
             = Inr ([], memoria_empate, 0)" .
  show ?thesis using 1 2 by simp
qed

text \<open>
  C1, as stated, fails: the store holds \<open>p = 1\<close>, the condition \<open>p < 5\<close> evaluates to false
  with no error, and a rule whose only action is a \<open>RETRACT\<close> runs with no error and no effect.
\<close>

theorem operador_menor_silencioso:
  "evaluar_condicion id memoria_empate (cond_ejemplo MENOR (VInt 5)) Map.empty
     = Inr (False, Map.empty)
   \<and> h_valor hecho_a = VInt 1
   \<and> ejecutar_acciones int (regla_ejemplo [] [accion_ejemplo RETRACT (VInt 1)]) Map.empty
       (memoria_empate, 0) = Inr ([], memoria_empate, 0)"
  by (simp add: evaluar_condicion_def obtener_insercion_empate cond_ejemplo_def Let_def
      ejecutar_acciones_def ejecutar_accion_def regla_ejemplo_def post_init_def accion_ejemplo_def
      hecho_a_def)

text \<open>
  C9. A rule with no conditions evaluates, on every memory (the empty one included) and
  without error, to the empty bindings; a MATCH phase that meets it appends its
  activation and goes on. In a session, with the rule among the rules of the knowledge
  base: the MATCH phase succeeds and leaves an activation of the rule on the agenda;
  every cycle returns without leaving the loop and with more activations of the rule on
  the agenda than before; from any cycle count the loop runs to the cycle limit and adds
  at least one activation of the rule per cycle run; and so \<open>inferir\<close> returns after
  \<open>max_ciclos\<close> cycles with at least \<open>max_ciclos\<close> more activations of the rule.
\<close>

theorem regla_sin_condiciones:
  assumes "r_condiciones regla = []"
  shows "evaluar_regla orden m regla = Inr (Some Map.empty)
       \<and> fase_match orden reloj m (regla # resto) (ag, l) =
           fase_match orden reloj m resto
             (activar_regla (r_id regla) Map.empty [] (r_especificidad regla) (r_prioridad regla)
                (reloj l) ag, Suc l)
       \<and> (wf_memoria m \<and> (\<forall>xs. set (orden xs) = set xs) \<and> regla \<in> set reglas \<longrightarrow>
            (\<exists>nuevos k. fase_match orden reloj m reglas (ag, l) =
                Inr (ag\<lparr>ag_reglas_instanciadas := ag_reglas_instanciadas ag @ nuevos\<rparr>,
                     l + length nuevos)
              \<and> activacion_de regla Map.empty (reloj k) \<in> set nuevos))
       \<and> (wf_memoria m \<and> (\<forall>xs. set (orden xs) = set xs) \<and> regla \<in> set (obtener_reglas kb) \<longrightarrow>
            (\<exists>m' ag' l'. ciclo orden reloj kb (m, ag, l) = Inr (False, m', ag', l')
              \<and> wf_memoria m'
              \<and> activaciones_de regla ag < activaciones_de regla ag')
          \<and> (\<exists>m' ag' l'. bucle orden reloj kb max_ciclos n razon (m, ag, l)
                             = Inr (max n max_ciclos, razon, m', ag', l')
              \<and> activaciones_de regla ag + nat (max_ciclos - n) \<le> activaciones_de regla ag'))
       \<and> (wf_memoria (mo_memoria motor) \<and> (\<forall>xs. set (orden xs) = set xs)
            \<and> regla \<in> set (obtener_reglas kb) \<longrightarrow>
            (\<exists>motor' l'. inferir orden reloj kb (motor, l) = Inr (motor', l')
              \<and> mo_ciclos_ejecutados motor' = max 0 (mo_max_ciclos motor)
              \<and> activaciones_de regla (mo_agenda motor) + nat (mo_max_ciclos motor)
                  \<le> activaciones_de regla (mo_agenda motor')))"
proof (intro conjI impI)
  show "evaluar_regla orden m regla = Inr (Some Map.empty)"
    using assms by (rule evaluar_regla_vacia)
  show "fase_match orden reloj m (regla # resto) (ag, l) =
           fase_match orden reloj m resto
             (activar_regla (r_id regla) Map.empty [] (r_especificidad regla) (r_prioridad regla)
                (reloj l) ag, Suc l)"
    using assms by (simp add: evaluar_regla_def)
next
  assume a: "wf_memoria m \<and> (\<forall>xs. set (orden xs) = set xs) \<and> regla \<in> set reglas"
  then have w: "wf_memoria m" and o: "\<And>xs. set (orden xs) = set xs" and r: "regla \<in> set reglas"
    by auto
  from fase_match_append [OF w o, of reloj reglas ag l] r assms
  show "\<exists>nuevos k. fase_match orden reloj m reglas (ag, l) =
                Inr (ag\<lparr>ag_reglas_instanciadas := ag_reglas_instanciadas ag @ nuevos\<rparr>,
                     l + length nuevos)
              \<and> activacion_de regla Map.empty (reloj k) \<in> set nuevos"
    by blast
next
  assume a: "wf_memoria m \<and> (\<forall>xs. set (orden xs) = set xs) \<and> regla \<in> set (obtener_reglas kb)"
  then have w: "wf_memoria m" and o: "\<And>xs. set (orden xs) = set xs"
    and r: "regla \<in> set (obtener_reglas kb)" by auto
  show "\<exists>m' ag' l'. ciclo orden reloj kb (m, ag, l) = Inr (False, m', ag', l')
              \<and> wf_memoria m'
              \<and> activaciones_de regla ag < activaciones_de regla ag'"
    by (rule ciclo_con_regla [OF w o r assms])
  from bucle_con_regla [OF o r assms w refl, where max_ciclos = max_ciclos and n = n
      and reloj = reloj and razon = razon and ag = ag and l = l]
  show "\<exists>m' ag' l'. bucle orden reloj kb max_ciclos n razon (m, ag, l)
                             = Inr (max n max_ciclos, razon, m', ag', l')
              \<and> activaciones_de regla ag + nat (max_ciclos - n) \<le> activaciones_de regla ag'"
    by blast
next
  assume a: "wf_memoria (mo_memoria motor) \<and> (\<forall>xs. set (orden xs) = set xs)
            \<and> regla \<in> set (obtener_reglas kb)"
  then have w: "wf_memoria (mo_memoria motor)" and o: "\<And>xs. set (orden xs) = set xs"
    and r: "regla \<in> set (obtener_reglas kb)" by auto
  show "\<exists>motor' l'. inferir orden reloj kb (motor, l) = Inr (motor', l')
              \<and> mo_ciclos_ejecutados motor' = max 0 (mo_max_ciclos motor)
              \<and> activaciones_de regla (mo_agenda motor) + nat (mo_max_ciclos motor)
                  \<le> activaciones_de regla (mo_agenda motor')"
    by (rule inferir_con_regla [OF w o r assms])
qed

theorem regla_sin_condiciones_witness:
  "r_condiciones regla_huerfana = [] \<and> wf_memoria MemoriaTrabajo_init
   \<and> regla_huerfana \<in> set (obtener_reglas kb_una_regla)
   \<and> evaluar_regla id MemoriaTrabajo_init regla_huerfana = Inr (Some Map.empty)
   \<and> (\<exists>nuevos k.
         fase_match id int MemoriaTrabajo_init (obtener_reglas kb_una_regla)
           (Agenda_init ESPECIFICIDAD, 0)
         = Inr ((Agenda_init ESPECIFICIDAD)
                  \<lparr>ag_reglas_instanciadas :=
                     ag_reglas_instanciadas (Agenda_init ESPECIFICIDAD) @ nuevos\<rparr>,
                0 + length nuevos)
       \<and> activacion_de regla_huerfana Map.empty (int k) \<in> set nuevos)
   \<and> (\<exists>m' ag' l'.
         ciclo id int kb_una_regla (MemoriaTrabajo_init, Agenda_init ESPECIFICIDAD, 0)
           = Inr (False, m', ag', l')
       \<and> activaciones_de regla_huerfana (Agenda_init ESPECIFICIDAD)
           < activaciones_de regla_huerfana ag')
   \<and> (\<exists>motor' l'.
         inferir id int kb_una_regla (motor_ejemplo ESPECIFICIDAD 3, 0) = Inr (motor', l')
       \<and> mo_ciclos_ejecutados motor' = 3
       \<and> 3 \<le> activaciones_de regla_huerfana (mo_agenda motor'))"
proof -
  have c: "r_condiciones regla_huerfana = []"
    by (simp add: regla_huerfana_def regla_ejemplo_def post_init_def)
  have r: "regla_huerfana \<in> set (obtener_reglas kb_una_regla)"
    by (simp add: kb_una_regla_def BaseConocimientoBotanicoTDF_def)
  have o: "\<forall>xs :: string list. set (id xs) = set xs" by simp
  have mo: "mo_memoria (motor_ejemplo ESPECIFICIDAD 3) = MemoriaTrabajo_init"
    "mo_agenda (motor_ejemplo ESPECIFICIDAD 3) = Agenda_init ESPECIFICIDAD"
    "mo_max_ciclos (motor_ejemplo ESPECIFICIDAD 3) = 3"
    by (simp_all add: motor_ejemplo_def MotorInferenciaAcademico_init_def)
  have z: "activaciones_de regla_huerfana (Agenda_init ESPECIFICIDAD) = 0"
    by (simp add: activaciones_de_def Agenda_init_def)
  note t = regla_sin_condiciones [OF c, where orden = id and m = MemoriaTrabajo_init
      and reloj = int and ag = "Agenda_init ESPECIFICIDAD" and l = 0
      and reglas = "obtener_reglas kb_una_regla" and kb = kb_una_regla
      and motor = "motor_ejemplo ESPECIFICIDAD 3"]
  have w3: "wf_memoria (mo_memoria (motor_ejemplo ESPECIFICIDAD 3))"
    unfolding mo by (rule wf_init)
  from t [THEN conjunct2, THEN conjunct2, THEN conjunct1, THEN mp, OF conjI [OF wf_init conjI [OF o r]]]
  have 1: "\<exists>nuevos k.
         fase_match id int MemoriaTrabajo_init (obtener_reglas kb_una_regla)
           (Agenda_init ESPECIFICIDAD, 0)
         = Inr ((Agenda_init ESPECIFICIDAD)
                  \<lparr>ag_reglas_instanciadas :=
                     ag_reglas_instanciadas (Agenda_init ESPECIFICIDAD) @ nuevos\<rparr>,
                0 + length nuevos)
       \<and> activacion_de regla_huerfana Map.empty (int k) \<in> set nuevos" .
  from t [THEN conjunct2, THEN conjunct2, THEN conjunct2, THEN conjunct1, THEN mp,
      OF conjI [OF wf_init conjI [OF o r]], THEN conjunct1]
  have 2: "\<exists>m' ag' l'.
         ciclo id int kb_una_regla (MemoriaTrabajo_init, Agenda_init ESPECIFICIDAD, 0)
           = Inr (False, m', ag', l')
       \<and> activaciones_de regla_huerfana (Agenda_init ESPECIFICIDAD)
           < activaciones_de regla_huerfana ag'"
    by blast
  from t [THEN conjunct2, THEN conjunct2, THEN conjunct2, THEN conjunct2, THEN mp,
      OF conjI [OF w3 conjI [OF o r]]]
  have 3: "\<exists>motor' l'.
         inferir id int kb_una_regla (motor_ejemplo ESPECIFICIDAD 3, 0) = Inr (motor', l')
       \<and> mo_ciclos_ejecutados motor' = 3
       \<and> 3 \<le> activaciones_de regla_huerfana (mo_agenda motor')"
    unfolding mo z by simp
  from t [THEN conjunct1] c r wf_init 1 2 3 show ?thesis by blast
qed

text \<open>
  C6. In a session, executing the actions of a rule under a binding map succeeds and
  appends to the store one fact for each action of kind \<open>ASSERT\<close>, \<open>CONCLUDE\<close> or
  \<open>RECOMMEND\<close>, in order, and nothing for the other kinds; the ids returned are those of
  the new facts. Each new fact has the action's predicate, the action's value resolved
  as the specification says, category \<open>DERIVADO\<close> for \<open>ASSERT\<close> and \<open>CONCLUSION\<close> for
  the other two, the rule's id as origin, and the action's confidence and justification.
\<close>

theorem ejecutar_acciones_spec:
  assumes "wf_memoria m"
  shows "\<exists>m' nuevos. ejecutar_acciones reloj regla bnd (m, l) =
            Inr (map fst nuevos, m', l + length nuevos)
          \<and> mt_hechos m' = mt_hechos m @ nuevos
          \<and> map campos_hecho nuevos
              = map (campos_accion regla bnd)
                  (filter (\<lambda>a. a_tipo a = ASSERT \<or> a_tipo a = CONCLUDE \<or> a_tipo a = RECOMMEND)
                     (r_acciones regla))
          \<and> wf_memoria m'"
proof -
  have f: "(\<lambda>a. spec_tipo (a_tipo a) \<noteq> None)
           = (\<lambda>a. a_tipo a = ASSERT \<or> a_tipo a = CONCLUDE \<or> a_tipo a = RECOMMEND)"
  proof
    fix a show "(spec_tipo (a_tipo a) \<noteq> None)
           = (a_tipo a = ASSERT \<or> a_tipo a = CONCLUDE \<or> a_tipo a = RECOMMEND)"
      by (cases "a_tipo a") simp_all
  qed
  from ejecutar_lista_spec [OF assms, of reloj regla bnd "r_acciones regla" "[]" l]
  show ?thesis unfolding ejecutar_acciones_def f by simp
qed

theorem ejecutar_acciones_spec_witness:
  "wf_memoria MemoriaTrabajo_init
   \<and> (\<exists>m' nuevos.
         ejecutar_acciones int regla_acciones [''x'' \<mapsto> VInt 7] (MemoriaTrabajo_init, 0)
           = Inr (map fst nuevos, m', 0 + length nuevos)
       \<and> mt_hechos m' = nuevos
       \<and> map campos_hecho nuevos =
           [(''q'', VInt 7, Some DERIVADO, Some ''R1'', 9 / 10, ''porque''),
            (''q'', VStr ''$y'', Some CONCLUSION, Some ''R1'', 9 / 10, ''porque''),
            (''q'', VInt 3, Some CONCLUSION, Some ''R1'', 9 / 10, ''porque'')])"
proof -
  have e: "map (campos_accion regla_acciones [''x'' \<mapsto> VInt 7])
             (filter (\<lambda>a. a_tipo a = ASSERT \<or> a_tipo a = CONCLUDE \<or> a_tipo a = RECOMMEND)
                (r_acciones regla_acciones))
           = [(''q'', VInt 7, Some DERIVADO, Some ''R1'', 9 / 10, ''porque''),
              (''q'', VStr ''$y'', Some CONCLUSION, Some ''R1'', 9 / 10, ''porque''),
              (''q'', VInt 3, Some CONCLUSION, Some ''R1'', 9 / 10, ''porque'')]"
    by (simp add: regla_acciones_def regla_ejemplo_def post_init_def accion_ejemplo_def
        campos_accion_def)
  have h: "mt_hechos MemoriaTrabajo_init = []" by (simp add: MemoriaTrabajo_init_def)
  from ejecutar_acciones_spec [OF wf_init, of int regla_acciones "[''x'' \<mapsto> VInt 7]" 0]
  show ?thesis unfolding e h using wf_init by auto
qed

subsection \<open>The inference loop\<close>

text \<open>
  C3 fails on the code. With no rule in the knowledge base, a fresh memory and a fresh
  agenda, the first cycle finds no unexecuted activation and leaves the loop by \<open>break\<close>.
  With \<open>max_ciclos = 1\<close> that cycle is the last one permitted, and the reason reported is
  the cycle limit: the test after the loop overwrites the reason set before the
  \<open>break\<close>. With \<open>max_ciclos = 2\<close> the same run reports the empty agenda.
\<close>

theorem inferir_agenda_vacia_ultimo_ciclo:
  "ciclo id int (BaseConocimientoBotanicoTDF [])
     (MemoriaTrabajo_init, Agenda_init ESPECIFICIDAD, 0)
     = Inr (True, MemoriaTrabajo_init, Agenda_init ESPECIFICIDAD, 0)
   \<and> inferir id int (BaseConocimientoBotanicoTDF []) (motor_ejemplo ESPECIFICIDAD 1, 0)
     = Inr ((motor_ejemplo ESPECIFICIDAD 1)
              \<lparr> mo_ciclos_ejecutados := 1, mo_razon_terminacion := LimiteCiclos 1 \<rparr>, 0)
   \<and> inferir id int (BaseConocimientoBotanicoTDF []) (motor_ejemplo ESPECIFICIDAD 2, 0)
     = Inr ((motor_ejemplo ESPECIFICIDAD 2)
              \<lparr> mo_ciclos_ejecutados := 1, mo_razon_terminacion := AgendaVacia \<rparr>, 0)"
proof -
  have b: "bucle id int (BaseConocimientoBotanicoTDF []) k 0 SinRazon
             (MemoriaTrabajo_init, Agenda_init ESPECIFICIDAD, 0)
           = Inr (1, AgendaVacia, MemoriaTrabajo_init, Agenda_init ESPECIFICIDAD, 0)"
    if "0 < k" for k
    using bucle_break [OF that ciclo_kb_vacia] by simp
  show ?thesis
    using b [of 1] b [of 2] ciclo_kb_vacia
    by (simp add: inferir_def motor_ejemplo_def MotorInferenciaAcademico_init_def)
qed

text \<open>
  C4, as the code has it. When the activation selected in a cycle names a rule that the
  knowledge base does not find, the cycle ends without error and without leaving the
  loop, the memory is what it was (no fact is produced), the agenda is the one the MATCH
  phase left, with the selected activation still unexecuted, and the loop goes on with
  the next cycle.
\<close>

theorem regla_ausente_omitida:
  assumes "fase_match orden reloj m (obtener_reglas kb) (ag0, l0) = Inr (ag, l)"
    and "seleccionar_proxima_regla ag = Inr (Some i)"
    and "obtener_regla_por_id kb (ri_regla_id (ag_reglas_instanciadas ag ! i)) = None"
  shows "ciclo orden reloj kb (m, ag0, l0) = Inr (False, m, ag, l)
       \<and> \<not> ri_ya_ejecutada (ag_reglas_instanciadas ag ! i)
       \<and> (n < max_ciclos \<longrightarrow>
            bucle orden reloj kb max_ciclos n razon (m, ag0, l0)
              = bucle orden reloj kb max_ciclos (n + 1) razon (m, ag, l))"
proof -
  have c: "ciclo orden reloj kb (m, ag0, l0) = Inr (False, m, ag, l)"
    using assms by (simp add: ciclo_def)
  have "\<not> ri_ya_ejecutada (ag_reglas_instanciadas ag ! i)"
    using seleccionar_casos [of ag] assms(2) by auto
  then show ?thesis using c bucle_sigue [OF _ c refl] by blast
qed

theorem regla_ausente_omitida_witness:
  "fase_match id int MemoriaTrabajo_init (obtener_reglas kb_incoherente) (agenda_huerfana 0, 0)
     = Inr (agenda_huerfana (Suc 0), Suc 0)
   \<and> seleccionar_proxima_regla (agenda_huerfana (Suc 0)) = Inr (Some 0)
   \<and> obtener_regla_por_id kb_incoherente
       (ri_regla_id (ag_reglas_instanciadas (agenda_huerfana (Suc 0)) ! 0)) = None
   \<and> ciclo id int kb_incoherente (MemoriaTrabajo_init, agenda_huerfana 0, 0)
       = Inr (False, MemoriaTrabajo_init, agenda_huerfana (Suc 0), Suc 0)
   \<and> \<not> ri_ya_ejecutada (ag_reglas_instanciadas (agenda_huerfana (Suc 0)) ! 0)
   \<and> bucle id int kb_incoherente 3 0 SinRazon (MemoriaTrabajo_init, agenda_huerfana 0, 0)
       = bucle id int kb_incoherente 3 (0 + 1) SinRazon
           (MemoriaTrabajo_init, agenda_huerfana (Suc 0), Suc 0)"
proof -
  have o: "obtener_regla_por_id kb_incoherente
       (ri_regla_id (ag_reglas_instanciadas (agenda_huerfana (Suc 0)) ! 0)) = None"
    by (simp add: kb_incoherente_def)
  note t = regla_ausente_omitida [OF fase_match_huerfana [of 0] seleccionar_huerfana [of 0] o,
      of 0 3 SinRazon]
  have "(0 :: int) < 3" by simp
  with t have "bucle id int kb_incoherente 3 0 SinRazon (MemoriaTrabajo_init, agenda_huerfana 0, 0)
       = bucle id int kb_incoherente 3 (0 + 1) SinRazon
           (MemoriaTrabajo_init, agenda_huerfana (Suc 0), Suc 0)"
    by blast
  with t fase_match_huerfana [of 0] seleccionar_huerfana [of 0] o show ?thesis by blast
qed

text \<open>
  C4, as stated, fails: the knowledge base lists a rule that it does not find by id. The
  first cycle selects the rule's activation and skips it; the second cycle selects the
  same activation again and looks the same id up again; with \<open>max_ciclos = 3\<close> the loop
  spends all three cycles this way and stops at the cycle limit with nothing executed.
\<close>

theorem regla_ausente_reintento:
  "ciclo id int kb_incoherente (MemoriaTrabajo_init, Agenda_init ESPECIFICIDAD, 0)
     = Inr (False, MemoriaTrabajo_init, agenda_huerfana 1, 1)
   \<and> seleccionar_proxima_regla (agenda_huerfana 1) = Inr (Some 0)
   \<and> fase_match id int MemoriaTrabajo_init (obtener_reglas kb_incoherente) (agenda_huerfana 1, 1)
     = Inr (agenda_huerfana 2, 2)
   \<and> seleccionar_proxima_regla (agenda_huerfana 2) = Inr (Some 0)
   \<and> ag_reglas_instanciadas (agenda_huerfana 2) ! 0 = ag_reglas_instanciadas (agenda_huerfana 1) ! 0
   \<and> obtener_regla_por_id kb_incoherente
       (ri_regla_id (ag_reglas_instanciadas (agenda_huerfana 2) ! 0)) = None
   \<and> inferir id int kb_incoherente (motor_ejemplo ESPECIFICIDAD 3, 0)
     = Inr ((motor_ejemplo ESPECIFICIDAD 3)
              \<lparr> mo_memoria := MemoriaTrabajo_init, mo_agenda := agenda_huerfana 3,
                mo_ciclos_ejecutados := 3, mo_razon_terminacion := LimiteCiclos 3 \<rparr>, 3)"
proof -
  have c0: "ciclo id int kb_incoherente (MemoriaTrabajo_init, Agenda_init ESPECIFICIDAD, 0)
     = Inr (False, MemoriaTrabajo_init, agenda_huerfana 1, 1)"
    using ciclo_huerfana [of 0] by (simp only: agenda_huerfana_0 One_nat_def)
  have c1: "ciclo id int kb_incoherente (MemoriaTrabajo_init, agenda_huerfana 1, 1)
     = Inr (False, MemoriaTrabajo_init, agenda_huerfana 2, 2)"
    using ciclo_huerfana [of 1] by (simp only: Suc_1)
  have "Suc 2 = 3" by simp
  with ciclo_huerfana [of 2]
  have c2: "ciclo id int kb_incoherente (MemoriaTrabajo_init, agenda_huerfana 2, 2)
     = Inr (False, MemoriaTrabajo_init, agenda_huerfana 3, 3)"
    by (simp only:)
  have b3: "bucle id int kb_incoherente 3 3 SinRazon (MemoriaTrabajo_init, agenda_huerfana 3, 3)
          = Inr (3, SinRazon, MemoriaTrabajo_init, agenda_huerfana 3, 3)"
    by (rule bucle_fin) simp
  have b2: "bucle id int kb_incoherente 3 2 SinRazon (MemoriaTrabajo_init, agenda_huerfana 2, 2)
          = Inr (3, SinRazon, MemoriaTrabajo_init, agenda_huerfana 3, 3)"
    by (rule trans [OF bucle_sigue [OF _ c2] b3]) simp_all
  have b1: "bucle id int kb_incoherente 3 1 SinRazon (MemoriaTrabajo_init, agenda_huerfana 1, 1)
          = Inr (3, SinRazon, MemoriaTrabajo_init, agenda_huerfana 3, 3)"
    by (rule trans [OF bucle_sigue [OF _ c1] b2]) simp_all
  have b0: "bucle id int kb_incoherente 3 0 SinRazon
              (MemoriaTrabajo_init, Agenda_init ESPECIFICIDAD, 0)
          = Inr (3, SinRazon, MemoriaTrabajo_init, agenda_huerfana 3, 3)"
    by (rule trans [OF bucle_sigue [OF _ c0] b1]) simp_all
  have i: "inferir id int kb_incoherente (motor_ejemplo ESPECIFICIDAD 3, 0)
     = Inr ((motor_ejemplo ESPECIFICIDAD 3)
              \<lparr> mo_memoria := MemoriaTrabajo_init, mo_agenda := agenda_huerfana 3,
                mo_ciclos_ejecutados := 3, mo_razon_terminacion := LimiteCiclos 3 \<rparr>, 3)"
    using b0
    by (simp add: inferir_def motor_ejemplo_def MotorInferenciaAcademico_init_def)
  have n: "ag_reglas_instanciadas (agenda_huerfana 2) ! 0 = ag_reglas_instanciadas (agenda_huerfana 1) ! 0"
    by (simp add: agenda_huerfana_def numeral_2_eq_2)
  have o: "obtener_regla_por_id kb_incoherente
       (ri_regla_id (ag_reglas_instanciadas (agenda_huerfana 2) ! 0)) = None"
    by (simp add: kb_incoherente_def)
  have s1: "seleccionar_proxima_regla (agenda_huerfana 1) = Inr (Some 0)"
    using seleccionar_huerfana [of 0] by (simp only: One_nat_def)
  have s2: "seleccionar_proxima_regla (agenda_huerfana 2) = Inr (Some 0)"
    using seleccionar_huerfana [of 1] by (simp only: Suc_1)
  have f: "fase_match id int MemoriaTrabajo_init (obtener_reglas kb_incoherente) (agenda_huerfana 1, 1)
     = Inr (agenda_huerfana 2, 2)"
    using fase_match_huerfana [of 1] by (simp only: Suc_1)
  show ?thesis
    by (intro conjI c0 s1 f s2 n o i)
qed

end
